theory Spec2Isabelle
  imports Main
begin

section \<open>JavaScript values and errors\<close>

text \<open>
  The launcher (\<^verbatim>\<open>src/components/launcher.js\<close>) and the downloader
  (\<^verbatim>\<open>src/unnamed/part_000\<close>) work on documents produced by \<^verbatim>\<open>JSON.parse\<close>.
  A parsed document is a \<open>jsval\<close>; \<open>JUndefined\<close> is what reading a missing
  property yields. An object is the list of its own properties, one pair per key, in
  iteration order. Numbers are integers here: the code only tests a number for being
  zero and emits the two window sizes.
\<close>

datatype jsval =
    JUndefined
  | JNull
  | JBool bool
  | JNum int
  | JStr string
  | JArr "jsval list"
  | JObj "(string \<times> jsval) list"

datatype error =
    TypeError           \<comment> \<open>a property read on null/undefined, a call of a missing method\<close>
  | SyntaxError         \<comment> \<open>\<^verbatim>\<open>JSON.parse\<close> on a file that is not JSON\<close>
  | ENOENT              \<comment> \<open>a file or directory that is not there\<close>
  | EISDIR              \<comment> \<open>\<^verbatim>\<open>unlink\<close> of a directory\<close>
  | BadArchive          \<comment> \<open>the archive library on a file that is no archive\<close>
  | VersionNoExiste     \<comment> \<open>the thrown string \<^verbatim>\<open>"La version no existe."\<close>\<close>
  | RequestFailed       \<comment> \<open>the request of \<^verbatim>\<open>down\<close> emitted \<^verbatim>\<open>error\<close>\<close>
  | ErrorDescarga       \<comment> \<open>the \<^verbatim>\<open>new Error('Error al descargar ...')\<close> of a step\<close>
  | SinVersion          \<comment> \<open>the \<^verbatim>\<open>Error\<close> of \<^verbatim>\<open>download\<close> for a missing version\<close>

definition bindE :: "error + 'a \<Rightarrow> ('a \<Rightarrow> error + 'b) \<Rightarrow> error + 'b" where
  "bindE m f = (case m of Inl e \<Rightarrow> Inl e | Inr a \<Rightarrow> f a)"

text \<open>\<^verbatim>\<open>x.k\<close>: a TypeError on \<^verbatim>\<open>null\<close> and \<^verbatim>\<open>undefined\<close>, the own property of an
  object, and \<^verbatim>\<open>undefined\<close> on every other value (none of the keys the code reads is a
  property of a string, a number, a boolean or an array).\<close>

fun getp :: "jsval \<Rightarrow> string \<Rightarrow> error + jsval" where
  "getp JUndefined k = Inl TypeError"
| "getp JNull k = Inl TypeError"
| "getp (JObj kvs) k = Inr (case map_of kvs k of None \<Rightarrow> JUndefined | Some v \<Rightarrow> v)"
| "getp v k = Inr JUndefined"

text \<open>The truth value JavaScript gives a value in \<^verbatim>\<open>if (v)\<close>, \<^verbatim>\<open>!v\<close> and \<^verbatim>\<open>v ? a : b\<close>.\<close>

fun truthy :: "jsval \<Rightarrow> bool" where
  "truthy JUndefined = False"
| "truthy JNull = False"
| "truthy (JBool b) = b"
| "truthy (JNum n) = (n \<noteq> 0)"
| "truthy (JStr s) = (s \<noteq> [])"
| "truthy (JArr xs) = True"
| "truthy (JObj kvs) = True"

section \<open>Strings\<close>

text \<open>\<^verbatim>\<open>s.split(c)\<close> for a one-character separator: the pieces between the
  separators, \<^verbatim>\<open>[""]\<close> for the empty string.\<close>

fun split_on :: "char \<Rightarrow> string \<Rightarrow> string list" where
  "split_on c [] = [[]]"
| "split_on c (x # xs) =
     (if x = c then [] # split_on c xs
      else (case split_on c xs of [] \<Rightarrow> [[x]] | p # ps \<Rightarrow> (x # p) # ps))"

text \<open>\<^verbatim>\<open>xs.join(sep)\<close> on an array of strings.\<close>

fun join_with :: "string \<Rightarrow> string list \<Rightarrow> string" where
  "join_with sep [] = []"
| "join_with sep [x] = x"
| "join_with sep (x # y # ys) = x @ sep @ join_with sep (y # ys)"

text \<open>\<^verbatim>\<open>s.includes(sub)\<close>: \<open>sub\<close> occurs in \<open>s\<close> as a contiguous substring.\<close>

fun includes_str :: "string \<Rightarrow> string \<Rightarrow> bool" where
  "includes_str [] sub = (sub = [])"
| "includes_str (c # cs) sub = (take (length sub) (c # cs) = sub \<or> includes_str cs sub)"

section \<open>Paths\<close>

text \<open>
  A \<open>path\<close> is the list of the segments of a resolved (absolute, normalised) path. The
  option \<^verbatim>\<open>gameDirectory\<close> and the downloader's \<^verbatim>\<open>root\<close> enter the model as the
  segments of \<^verbatim>\<open>path.resolve(root)\<close>; \<^verbatim>\<open>path.join(p, a, b, ...)\<close> splits its string
  arguments at \<^verbatim>\<open>/\<close>, drops empty and \<^verbatim>\<open>.\<close> segments and lets \<^verbatim>\<open>..\<close> remove the
  segment before it, as \<^verbatim>\<open>path.posix\<close> does. The file a system call reaches through
  \<^verbatim>\<open>path.join(root, ...)\<close> is the one at \<^verbatim>\<open>path.resolve(path.join(root, ...))\<close>, so the
  model keeps one function for both. \<open>render\<close> is the string of a resolved path.
\<close>

type_synonym path = "string list"

definition norm_step :: "path \<Rightarrow> string \<Rightarrow> path" where
  "norm_step p s =
     (if s = [] \<or> s = ''.'' then p else if s = ''..'' then butlast p else p @ [s])"

definition path_join :: "path \<Rightarrow> string list \<Rightarrow> path" where
  "path_join p ss = foldl norm_step p (concat (map (split_on CHR ''/'') ss))"

definition render :: "path \<Rightarrow> string" where
  "render p = (if p = [] then ''/'' else concat (map (\<lambda>s. ''/'' @ s) p))"

text \<open>\<^verbatim>\<open>path.basename(s)\<close>: trailing separators are ignored, the result is what
  follows the last remaining separator.\<close>

definition basename :: "string \<Rightarrow> string" where
  "basename s =
     rev (takeWhile (\<lambda>c. c \<noteq> CHR ''/'') (dropWhile (\<lambda>c. c = CHR ''/'') (rev s)))"

text \<open>\<^verbatim>\<open>path.extname(name)\<close> for the name of a directory entry (a string without a
  separator): from the last dot to the end; empty when there is no dot, when the only
  dot is the first character, and for \<^verbatim>\<open>..\<close>.\<close>

definition extname :: "string \<Rightarrow> string" where
  "extname name =
     (let ext = takeWhile (\<lambda>c. c \<noteq> CHR ''.'') (rev name);
          stem = drop (Suc (length ext)) (rev name)
      in if CHR ''.'' \<notin> set name \<or> stem = [] \<or> name = ''..'' then []
         else CHR ''.'' # rev ext)"

section \<open>The launcher: the jar search\<close>

text \<open>What \<^verbatim>\<open>fs.readdirSync\<close> and \<^verbatim>\<open>fs.statSync(...).isDirectory()\<close> report below a
  directory: the entries in the order read, a directory with its own entries.\<close>

datatype dirent = FileEnt string | DirEnt string "dirent list"

definition legacy_versions :: "string list" where
  "legacy_versions = [''1.14'', ''1.14.1'', ''1.14.2'', ''1.14.3'']"

text \<open>\<^verbatim>\<open>encontrarArchivosJAR(directorio, files, ver)\<close>, the entries of \<open>directorio\<close>
  given as the second argument. The result is the string of the paths found, each
  followed by a semicolon. (A directory that cannot be read is an error of the caller's
  first read, see \<open>find_libs\<close>; entries that cannot be examined are not modelled.)\<close>

fun encontrarArchivosJAR :: "path \<Rightarrow> dirent list \<Rightarrow> string list \<Rightarrow> string \<Rightarrow> string" where
  "encontrarArchivosJAR directorio [] files ver = []"
| "encontrarArchivosJAR directorio (DirEnt archivo sub # archivos) files ver =
     encontrarArchivosJAR (path_join directorio [archivo]) sub files ver
     @ encontrarArchivosJAR directorio archivos files ver"
| "encontrarArchivosJAR directorio (FileEnt archivo # archivos) files ver =
     (let rutaCompleta = path_join directorio [archivo] in
      (if ver \<in> set legacy_versions then
         (if extname archivo = ''.jar'' \<and> archivo \<in> set files
          then render rutaCompleta @ '';'' else [])
       else
         (if extname archivo = ''.jar'' \<and> archivo \<in> set files
             \<and> \<not> includes_str archivo ''3.2.1''
          then render rutaCompleta @ '';'' else [])))
     @ encontrarArchivosJAR directorio archivos files ver"

text \<open>Every file below a directory with its full path and its name, in the order the
  search visits them: what the claims about the search quantify over.\<close>

fun all_files :: "path \<Rightarrow> dirent list \<Rightarrow> (path \<times> string) list" where
  "all_files d [] = []"
| "all_files d (DirEnt n sub # es) = all_files (path_join d [n]) sub @ all_files d es"
| "all_files d (FileEnt n # es) = (path_join d [n], n) # all_files d es"

definition classpath_of :: "(path \<times> string) list \<Rightarrow> string" where
  "classpath_of fs = concat (map (\<lambda>(p, n). render p @ '';'') fs)"

definition required_jar :: "string list \<Rightarrow> path \<times> string \<Rightarrow> bool" where
  "required_jar files = (\<lambda>(p, n). extname n = ''.jar'' \<and> n \<in> set files)"

definition conflicting :: "path \<times> string \<Rightarrow> bool" where
  "conflicting = (\<lambda>(p, n). includes_str n ''3.2.1'')"


section \<open>The file system and the network\<close>

text \<open>
  The state the two classes act on. \<open>files\<close> holds the regular files by resolved
  path, \<open>folders\<close> the directories that exist, \<open>listing\<close> what a recursive read of a
  directory reports when the launcher scans it (a view of the disk that nothing in the
  model writes to), \<open>requests\<close> every \<^verbatim>\<open>https.get\<close> issued so far (URL and
  destination file, oldest first) and \<open>unzipped\<close> every archive extraction (archive and
  target directory). A file's content is the document \<^verbatim>\<open>JSON.parse\<close> makes of it,
  \<open>Archive\<close> for a zip archive that can be extracted, and \<open>Bytes\<close> for anything
  else (a jar, an asset, a damaged archive).
\<close>

datatype fcontent = Json jsval | Archive | Bytes

record world =
  files :: "path \<rightharpoonup> fcontent"
  folders :: "path set"
  listing :: "path \<rightharpoonup> dirent list"
  requests :: "(string \<times> path) list"
  unzipped :: "(path \<times> path) list"

definition existsSync :: "world \<Rightarrow> path \<Rightarrow> bool" where
  "existsSync w p = (files w p \<noteq> None \<or> p \<in> folders w)"

definition readFileSync :: "world \<Rightarrow> path \<Rightarrow> error + fcontent" where
  "readFileSync w p = (case files w p of None \<Rightarrow> Inl ENOENT | Some c \<Rightarrow> Inr c)"

text \<open>\<^verbatim>\<open>JSON.parse(fs.readFileSync(p, ...))\<close>.\<close>

definition read_json :: "world \<Rightarrow> path \<Rightarrow> error + jsval" where
  "read_json w p =
     bindE (readFileSync w p) (\<lambda>c. case c of Json v \<Rightarrow> Inr v | _ \<Rightarrow> Inl SyntaxError)"

definition writeFileSync :: "world \<Rightarrow> path \<Rightarrow> fcontent \<Rightarrow> world" where
  "writeFileSync w p c = w\<lparr>files := (files w)(p \<mapsto> c)\<rparr>"

text \<open>\<^verbatim>\<open>fs.unlinkSync(p)\<close> removes a regular file and throws on anything else.\<close>

definition unlinkSync :: "world \<Rightarrow> path \<Rightarrow> error + world" where
  "unlinkSync w p =
     (if files w p \<noteq> None then Inr (w\<lparr>files := (files w)(p := None)\<rparr>)
      else if p \<in> folders w then Inl EISDIR else Inl ENOENT)"

section \<open>The launcher\<close>

record options =
  memory_min :: string
  memory_max :: string
  gameDirectory :: path
  version :: string
  username :: string

text \<open>\<^verbatim>\<open>createProfile(root)\<close>; the content written is
  \<^verbatim>\<open>JSON.stringify({ profiles: {} })\<close>.\<close>

definition createProfile :: "world \<Rightarrow> path \<Rightarrow> world" where
  "createProfile w root =
     (if \<not> existsSync w (path_join root [''launcher_profiles.json''])
      then writeFileSync w (path_join root [''launcher_profiles.json''])
             (Json (JObj [(''profiles'', JObj [])]))
      else w)"

text \<open>\<^verbatim>\<open>fil.find(x => x.name === us)\<close> on the elements of an array: the first element
  whose \<^verbatim>\<open>name\<close> is the string \<open>us\<close>, \<^verbatim>\<open>undefined\<close> when there is none, and the
  TypeError of \<^verbatim>\<open>x.name\<close> when an element read on the way is \<^verbatim>\<open>null\<close>.\<close>

fun find_name :: "jsval list \<Rightarrow> string \<Rightarrow> error + jsval" where
  "find_name [] us = Inr JUndefined"
| "find_name (x # xs) us =
     (case getp x ''name'' of
        Inl e \<Rightarrow> Inl e
      | Inr n \<Rightarrow> if n = JStr us then Inr x else find_name xs us)"

text \<open>The body of the \<^verbatim>\<open>try\<close> block of \<^verbatim>\<open>auth\<close>: a value that is not an array has no
  method \<^verbatim>\<open>find\<close>.\<close>

definition auth_try :: "world \<Rightarrow> path \<Rightarrow> string \<Rightarrow> error + jsval" where
  "auth_try w root us =
     bindE (read_json w (path_join root [''usercache.json'']))
       (\<lambda>fil. case fil of
                 JArr xs \<Rightarrow> bindE (find_name xs us) (\<lambda>x. getp x ''uuid'')
               | _ \<Rightarrow> Inl TypeError)"

text \<open>\<^verbatim>\<open>auth(root, us)\<close>; \<open>fresh\<close> is the string \<^verbatim>\<open>uuidv4()\<close> returns when the
  \<^verbatim>\<open>catch\<close> block calls it.\<close>

definition auth :: "world \<Rightarrow> path \<Rightarrow> string \<Rightarrow> string \<Rightarrow> jsval" where
  "auth w root us fresh =
     (case auth_try w root us of Inl e \<Rightarrow> JStr fresh | Inr v \<Rightarrow> v)"

text \<open>An element \<^verbatim>\<open>find\<close> reads past: it is neither \<^verbatim>\<open>null\<close> nor
  \<^verbatim>\<open>undefined\<close>, and its name is not the user's. (Used to state what \<open>auth\<close>
  returns.)\<close>

definition passed_over :: "string \<Rightarrow> jsval \<Rightarrow> bool" where
  "passed_over us y = (y \<noteq> JNull \<and> y \<noteq> JUndefined \<and> getp y ''name'' \<noteq> Inr (JStr us))"

subsection \<open>The version pattern\<close>

text \<open>
  \<^verbatim>\<open>options.version.match(/\b1\.\d+(\.\d+)?\b/g)[0]\<close>. \<open>match_here\<close> matches the
  pattern after its first \<^verbatim>\<open>\b\<close> at the start of a string: \<^verbatim>\<open>1.\<close>, the longest run
  of digits, then the optional group when a word boundary follows it and otherwise none
  (the boundary then holds before the dot); a shorter run of digits never ends at a
  boundary. \<open>first_match\<close> tries the positions from the left; its flag says whether
  the character before the position is a word character. No match makes \<^verbatim>\<open>match\<close>
  return \<^verbatim>\<open>null\<close>, and \<^verbatim>\<open>[0]\<close> throws.
\<close>

definition is_digit :: "char \<Rightarrow> bool" where
  "is_digit c = (c \<in> set ''0123456789'')"

definition is_word :: "char \<Rightarrow> bool" where
  "is_word c = (c \<in> set ''abcdefghijklmnopqrstuvwxyzABCDEFGHIJKLMNOPQRSTUVWXYZ0123456789_'')"

definition at_boundary :: "string \<Rightarrow> bool" where
  "at_boundary r = (case r of [] \<Rightarrow> True | c # _ \<Rightarrow> \<not> is_word c)"

definition match_here :: "string \<Rightarrow> string option" where
  "match_here s =
     (case s of
        a # b # t \<Rightarrow>
          (let ds = takeWhile is_digit t; r = dropWhile is_digit t in
           if a \<noteq> CHR ''1'' \<or> b \<noteq> CHR ''.'' \<or> ds = [] then None
           else (case r of
                   [] \<Rightarrow> Some (''1.'' @ ds)
                 | c # u \<Rightarrow>
                     (let es = takeWhile is_digit u; r2 = dropWhile is_digit u in
                      if c = CHR ''.'' \<and> es \<noteq> [] \<and> at_boundary r2
                      then Some (''1.'' @ ds @ ''.'' @ es)
                      else if at_boundary r then Some (''1.'' @ ds) else None)))
      | _ \<Rightarrow> None)"

fun first_match :: "bool \<Rightarrow> string \<Rightarrow> string option" where
  "first_match prev_word [] = None"
| "first_match prev_word (c # cs) =
     (case (if prev_word then None else match_here (c # cs)) of
        Some m \<Rightarrow> Some m
      | None \<Rightarrow> first_match (is_word c) cs)"

text \<open>Lines 86 and 87 of \<^verbatim>\<open>launch\<close>: the base version and \<^verbatim>\<open>custom\<close> (\<open>None\<close> for
  \<^verbatim>\<open>null\<close>).\<close>

definition parse_version :: "string \<Rightarrow> error + (string \<times> string option)" where
  "parse_version full =
     (case first_match False full of
        None \<Rightarrow> Inl TypeError
      | Some v \<Rightarrow> Inr (v, if full \<noteq> v then Some full else None))"

subsection \<open>The launch plan\<close>

text \<open>A loop body that may throw, run over the elements in order: the first throw ends
  the loop.\<close>

fun mapE :: "('a \<Rightarrow> error + 'b) \<Rightarrow> 'a list \<Rightarrow> error + 'b list" where
  "mapE f [] = Inr []"
| "mapE f (x # xs) =
     (case f x of
        Inl e \<Rightarrow> Inl e
      | Inr y \<Rightarrow> (case mapE f xs of Inl e \<Rightarrow> Inl e | Inr ys \<Rightarrow> Inr (y # ys)))"

text \<open>\<^verbatim>\<open>v.forEach(...)\<close> needs an array.\<close>

definition as_array :: "jsval \<Rightarrow> error + jsval list" where
  "as_array v = (case v of JArr xs \<Rightarrow> Inr xs | _ \<Rightarrow> Inl TypeError)"

text \<open>\<^verbatim>\<open>v.split(' ')\<close> needs a string.\<close>

definition js_split :: "jsval \<Rightarrow> error + jsval" where
  "js_split v =
     (case v of JStr s \<Rightarrow> Inr (JArr (map JStr (split_on CHR '' '' s))) | _ \<Rightarrow> Inl TypeError)"

text \<open>The body of the first \<^verbatim>\<open>forEach\<close> (line 95): the names pushed for one library of
  the base version; \<^verbatim>\<open>path.basename\<close> throws on a value that is not a string.\<close>

definition base_lib :: "jsval \<Rightarrow> error + string list" where
  "base_lib element =
     bindE (getp element ''downloads'') (\<lambda>d.
     bindE (getp d ''artifact'') (\<lambda>a.
       if a \<noteq> JUndefined
       then bindE (getp a ''path'')
              (\<lambda>p. case p of JStr s \<Rightarrow> Inr [basename s] | _ \<Rightarrow> Inl TypeError)
       else Inr []))"

text \<open>\<^verbatim>\<open>name.split(':').slice(-2).join("-").concat('.jar')\<close>.\<close>

definition coord_jar :: "string \<Rightarrow> string" where
  "coord_jar name =
     (let parts = split_on CHR '':'' name
      in join_with ''-'' (drop (length parts - 2) parts) @ ''.jar'')"

text \<open>The body of the second \<^verbatim>\<open>forEach\<close> (line 102), for one library of the overlay.\<close>

definition custom_lib :: "jsval \<Rightarrow> error + string" where
  "custom_lib element =
     bindE (getp element ''name'')
       (\<lambda>n. case n of JStr s \<Rightarrow> Inr (coord_jar s) | _ \<Rightarrow> Inl TypeError)"

text \<open>Lines 93 to 98: the required names, the main class and the game arguments of the
  base version's document.\<close>

definition base_plan :: "jsval \<Rightarrow> error + (string list \<times> jsval \<times> jsval)" where
  "base_plan file =
     bindE (getp file ''libraries'') (\<lambda>ls.
     bindE (as_array ls) (\<lambda>els.
     bindE (mapE base_lib els) (\<lambda>names.
     bindE (getp file ''mainClass'') (\<lambda>mainClass.
     bindE (getp file ''minecraftArguments'') (\<lambda>ma.
     bindE (if truthy ma then js_split ma
            else bindE (getp file ''arguments'') (\<lambda>a. getp a ''game''))
       (\<lambda>gameArgs. Inr (concat names, mainClass, gameArgs)))))))"

text \<open>\<^verbatim>\<open>gameArgs.push(v)\<close> needs an array.\<close>

definition js_push :: "jsval \<Rightarrow> jsval \<Rightarrow> error + jsval" where
  "js_push arr v = (case arr of JArr xs \<Rightarrow> Inr (JArr (xs @ [v])) | _ \<Rightarrow> Inl TypeError)"

text \<open>Lines 101 to 109, on the overlay's parsed document: the names appended to
  \<^verbatim>\<open>reqLibs\<close>, the new main class and the new game arguments.\<close>

definition custom_plan ::
  "jsval \<Rightarrow> string list \<Rightarrow> jsval \<Rightarrow> error + (string list \<times> jsval \<times> jsval)" where
  "custom_plan customFile reqLibs gameArgs =
     bindE (getp customFile ''libraries'') (\<lambda>ls.
     bindE (as_array ls) (\<lambda>els.
     bindE (mapE custom_lib els) (\<lambda>names.
     bindE (getp customFile ''mainClass'') (\<lambda>mainClass.
     bindE (getp customFile ''arguments'') (\<lambda>a.
     bindE (if \<not> truthy a
            then bindE (getp customFile ''minecraftArguments'') js_split
            else bindE (getp a ''game'') (js_push gameArgs))
       (\<lambda>gameArgs'. Inr (reqLibs @ names, mainClass, gameArgs')))))))"

text \<open>Line 110: the options file is removed when it exists.\<close>

definition remove_options :: "world \<Rightarrow> path \<Rightarrow> error + world" where
  "remove_options w root =
     (if existsSync w (path_join root [''options.txt''])
      then unlinkSync w (path_join root [''options.txt''])
      else Inr w)"

text \<open>Line 113: the game jar appended to the classpath.\<close>

definition game_jar :: "path \<Rightarrow> string \<Rightarrow> string option \<Rightarrow> path" where
  "game_jar root ver custom =
     (case custom of
        None \<Rightarrow> path_join root [''versions'', ver, ver @ ''.jar'']
      | Some c \<Rightarrow>
          if includes_str c ''fabric''
          then path_join root [''versions'', ver, ver @ ''.jar'']
          else path_join root [''versions'', c, c @ ''.jar''])"

text \<open>Line 112: the jar search starts by reading the libraries directory.\<close>

definition find_libs :: "world \<Rightarrow> path \<Rightarrow> string list \<Rightarrow> string \<Rightarrow> error + string" where
  "find_libs w root reqLibs ver =
     (case listing w (path_join root [''libraries'']) of
        None \<Rightarrow> Inl ENOENT
      | Some es \<Rightarrow> Inr (encontrarArchivosJAR (path_join root [''libraries'']) es reqLibs ver))"

record plan =
  p_version :: string
  p_custom :: "string option"
  p_uuid :: jsval
  p_reqLibs :: "string list"
  p_mainClass :: jsval
  p_gameArgs :: jsval
  p_libs :: string

text \<open>Lines 86 to 113 of \<^verbatim>\<open>launch\<close>: everything up to the classpath, with the state
  of the disk after it. A throw leaves the disk as it was when it happened.\<close>

definition build_plan :: "world \<Rightarrow> options \<Rightarrow> string \<Rightarrow> (error + plan) \<times> world" where
  "build_plan w opts fresh =
     (let root = gameDirectory opts in
      case parse_version (version opts) of
        Inl e \<Rightarrow> (Inl e, w)
      | Inr (ver, custom) \<Rightarrow>
      (case read_json w (path_join root [''versions'', ver, ver @ ''.json'']) of
        Inl e \<Rightarrow> (Inl e, w)
      | Inr file \<Rightarrow>
      (let w1 = createProfile w root;
           uuid = auth w1 root (username opts) fresh in
       case base_plan file of
         Inl e \<Rightarrow> (Inl e, w1)
       | Inr (reqLibs, mainClass, gameArgs) \<Rightarrow>
       (case (case custom of
                None \<Rightarrow> Inr ((reqLibs, mainClass, gameArgs), w1)
              | Some c \<Rightarrow>
                  bindE (read_json w1 (path_join root [''versions'', c, c @ ''.json'']))
                    (\<lambda>customFile.
                  bindE (custom_plan customFile reqLibs gameArgs) (\<lambda>merged.
                  bindE (remove_options w1 root) (\<lambda>w2. Inr (merged, w2))))) of
          Inl e \<Rightarrow> (Inl e, w1)
        | Inr ((reqLibs', mainClass', gameArgs'), w2) \<Rightarrow>
        (case find_libs w2 root reqLibs' ver of
           Inl e \<Rightarrow> (Inl e, w2)
         | Inr libs \<Rightarrow>
             (Inr \<lparr>p_version = ver, p_custom = custom, p_uuid = uuid,
                   p_reqLibs = reqLibs', p_mainClass = mainClass', p_gameArgs = gameArgs',
                   p_libs = libs @ render (game_jar root ver custom)\<rparr>, w2))))))"

subsection \<open>The argument vector\<close>

text \<open>The object \<^verbatim>\<open>fields\<close> (lines 114 to 131), in the order of its keys.\<close>

definition launch_fields :: "path \<Rightarrow> string \<Rightarrow> string \<Rightarrow> jsval \<Rightarrow> (string \<times> jsval) list" where
  "launch_fields root ver us uuid =
     [(''${auth_access_token}'', uuid),
      (''${auth_session}'', uuid),
      (''${auth_player_name}'', JStr us),
      (''${auth_uuid}'', uuid),
      (''${auth_xuid}'', uuid),
      (''${user_properties}'', JStr ''{}''),
      (''${user_type}'', JStr ''mojang''),
      (''${version_name}'', JStr ver),
      (''${assets_index_name}'', JStr ver),
      (''${game_directory}'', JStr (render root)),
      (''${assets_root}'', JStr (render (path_join root [''assets'']))),
      (''${game_assets}'', JStr (render (path_join root [''assets'']))),
      (''${version_type}'', JStr ''release''),
      (''${clientid}'', uuid),
      (''${resolution_width}'', JNum 856),
      (''${resolution_height}'', JNum 482)]"

text \<open>\<^verbatim>\<open>xs.flat()\<close> and \<^verbatim>\<open>acc.concat(curr)\<close>: an array element or argument is spread one
  level, any other value is kept.\<close>

definition spread :: "jsval \<Rightarrow> jsval list" where
  "spread v = (case v of JArr xs \<Rightarrow> xs | _ \<Rightarrow> [v])"

definition js_flat :: "jsval \<Rightarrow> error + jsval" where
  "js_flat v = (case v of JArr xs \<Rightarrow> Inr (JArr (concat (map spread xs))) | _ \<Rightarrow> Inl TypeError)"

definition js_concat :: "jsval list \<Rightarrow> jsval \<Rightarrow> jsval list" where
  "js_concat acc cur = acc @ spread cur"

text \<open>The loop of lines 146 to 150: \<^verbatim>\<open>Object.keys(fields).includes(args[i])\<close> holds for
  a string that is one of the keys, and then \<^verbatim>\<open>fields[args[i]]\<close> replaces the token.\<close>

definition substitute1 :: "(string \<times> jsval) list \<Rightarrow> jsval \<Rightarrow> jsval" where
  "substitute1 fs tok =
     (case tok of
        JStr s \<Rightarrow> (case map_of fs s of Some v \<Rightarrow> v | None \<Rightarrow> tok)
      | _ \<Rightarrow> tok)"

fun substitute :: "(string \<times> jsval) list \<Rightarrow> jsval list \<Rightarrow> jsval list" where
  "substitute fs [] = []"
| "substitute fs (tok # toks) = substitute1 fs tok # substitute fs toks"

text \<open>Lines 133 to 144: the array \<^verbatim>\<open>args\<close> before the placeholders are replaced;
  \<open>flat\<close> is \<^verbatim>\<open>gameArgs.flat()\<close>.\<close>

definition raw_args :: "options \<Rightarrow> plan \<Rightarrow> jsval \<Rightarrow> jsval list" where
  "raw_args opts p flat =
     (let root = gameDirectory opts;
          natives = render (path_join root [''natives'', p_version p]) in
      foldl js_concat []
        [JStr (''-Djava.library.path='' @ (if natives \<noteq> [] then natives else render root)),
         JStr (''-Xmx'' @ memory_max opts),
         JStr (''-Xms'' @ memory_min opts),
         JStr ''-XX:HeapDumpPath=MojangTricksIntelDriversForPerformance_javaw.exe_minecraft.exe.heapdump'',
         JStr ''-cp'',
         JStr (p_libs p),
         p_mainClass p,
         flat])"

text \<open>Lines 133 to 150: the argument vector of a plan.\<close>

definition build_args :: "options \<Rightarrow> plan \<Rightarrow> error + jsval list" where
  "build_args opts p =
     bindE (js_flat (p_gameArgs p)) (\<lambda>flat.
       Inr (substitute (launch_fields (gameDirectory opts) (p_version p) (username opts) (p_uuid p))
              (raw_args opts p flat)))"

text \<open>\<^verbatim>\<open>launch(options)\<close> up to the call of \<^verbatim>\<open>spawn\<close>: the arguments and the working
  directory handed to it, and the state of the disk.\<close>

definition launch :: "world \<Rightarrow> options \<Rightarrow> string \<Rightarrow> (error + jsval list \<times> path) \<times> world" where
  "launch w opts fresh =
     (case build_plan w opts fresh of
        (Inl e, w') \<Rightarrow> (Inl e, w')
      | (Inr p, w') \<Rightarrow>
          (bindE (build_args opts p) (\<lambda>args. Inr (args, gameDirectory opts)), w'))"


section \<open>The downloader\<close>

text \<open>
  \<^verbatim>\<open>mkdirSync\<close> with and without \<^verbatim>\<open>recursive\<close>. Every call in the code is guarded
  by \<^verbatim>\<open>existsSync\<close> and made below a directory an earlier step created; its failures
  (and those of writing a file) are not part of the model.
\<close>

definition mkdirSync :: "world \<Rightarrow> path \<Rightarrow> world" where
  "mkdirSync w p = w\<lparr>folders := insert p (folders w)\<rparr>"

definition mkdir_recursive :: "world \<Rightarrow> path \<Rightarrow> world" where
  "mkdir_recursive w p =
     w\<lparr>folders := folders w \<union> set (map (\<lambda>n. take n p) [0..<Suc (length p)])\<rparr>"

text \<open>The instance: \<^verbatim>\<open>this.root\<close>, \<^verbatim>\<open>this.version\<close> and \<^verbatim>\<open>this.file\<close>.\<close>

record downloader =
  d_root :: path
  d_version :: string
  d_file :: jsval

definition url_meta :: string where
  "url_meta = ''https://launchermeta.mojang.com/mc/game/version_manifest.json''"

definition url_resource :: string where
  "url_resource = ''https://resources.download.minecraft.net''"

text \<open>
  \<^verbatim>\<open>down(url, dir, name)\<close>. \<open>remote\<close> is what the server answers for a URL, \<open>None\<close>
  when the request emits \<^verbatim>\<open>error\<close>. The request is issued by the call itself; the
  answer is written to \<^verbatim>\<open>path.join(dir, name)\<close>. The result is how the promise
  settles (\<open>Inl\<close>: rejected) and the state once it has. A URL that is not a string
  reaches no server and counts as a failed request.
\<close>

definition down ::
  "(string \<rightharpoonup> fcontent) \<Rightarrow> world \<Rightarrow> jsval \<Rightarrow> path \<Rightarrow> string \<Rightarrow> (error + unit) \<times> world" where
  "down remote w url dir name =
     (case url of
        JStr u \<Rightarrow>
          (let w1 = w\<lparr>requests := requests w @ [(u, path_join dir [name])]\<rparr> in
           case remote u of
             None \<Rightarrow> (Inl RequestFailed, w1)
           | Some c \<Rightarrow> (Inr (), writeFileSync w1 (path_join dir [name]) c))
      | _ \<Rightarrow> (Inl RequestFailed, w))"

text \<open>
  How the promise a step returns ends: resolved, rejected, or never settled because
  its \<^verbatim>\<open>async\<close> executor threw (the error is then an unhandled rejection).
\<close>

datatype outcome = Resolved | Rejected error | Pending error

text \<open>Lines 96 to 98 of \<^verbatim>\<open>downloadVersion\<close>. \<open>find_release\<close> is
  \<^verbatim>\<open>ver.versions.find(x => x.type === 'release' && x.id === this.version)\<close>,
  \<^verbatim>\<open>undefined\<close> when no element matches. The \<^verbatim>\<open>url\<close> of the result is read on
  line 97, and only then, on line 98, is the URL tested.\<close>

fun find_release :: "jsval list \<Rightarrow> string \<Rightarrow> error + jsval" where
  "find_release [] ver = Inr JUndefined"
| "find_release (x # xs) ver =
     (case getp x ''type'' of
        Inl e \<Rightarrow> Inl e
      | Inr t \<Rightarrow>
          if t = JStr ''release'' then
            (case getp x ''id'' of
               Inl e \<Rightarrow> Inl e
             | Inr i \<Rightarrow> if i = JStr ver then Inr x else find_release xs ver)
          else find_release xs ver)"

definition resolveVersionUrl :: "jsval \<Rightarrow> string \<Rightarrow> error + jsval" where
  "resolveVersionUrl ver v =
     bindE (getp ver ''versions'') (\<lambda>vs.
     bindE (as_array vs) (\<lambda>xs.
     bindE (find_release xs v) (\<lambda>entry.
     bindE (getp entry ''url'') (\<lambda>verJson.
       if \<not> truthy verJson then Inl VersionNoExiste else Inr verJson))))"

definition ensure_dir :: "world \<Rightarrow> path \<Rightarrow> world" where
  "ensure_dir w p = (if \<not> existsSync w p then mkdirSync w p else w)"

definition ensure_dir_recursive :: "world \<Rightarrow> path \<Rightarrow> world" where
  "ensure_dir_recursive w p = (if \<not> existsSync w p then mkdir_recursive w p else w)"

definition downloadVersion ::
  "(string \<rightharpoonup> fcontent) \<Rightarrow> world \<Rightarrow> downloader \<Rightarrow> outcome \<times> world" where
  "downloadVersion remote w d =
     (let root = d_root d; v = d_version d;
          w1 = ensure_dir_recursive w (path_join root [''cache'', ''json'']) in
      case down remote w1 (JStr url_meta) (path_join root [''cache'', ''json''])
             ''version_manifest.json'' of
        (Inl e, w2) \<Rightarrow> (Pending e, w2)
      | (Inr u, w2) \<Rightarrow>
          if existsSync w2 (path_join root [''cache'']) then
            (case bindE (read_json w2
                           (path_join root [''cache'', ''json'', ''version_manifest.json'']))
                    (\<lambda>ver. resolveVersionUrl ver v) of
               Inl e \<Rightarrow> (Pending e, w2)
             | Inr verJson \<Rightarrow>
                 (let w3 = ensure_dir_recursive w2 (path_join root [''versions'', v]) in
                  case down remote w3 verJson (path_join root [''versions'', v])
                         (v @ ''.json'') of
                    (Inl e, w4) \<Rightarrow> (Rejected ErrorDescarga, w4)
                  | (Inr u', w4) \<Rightarrow> (Resolved, w4)))
          else (Resolved, w2))"

definition downloadClient ::
  "(string \<rightharpoonup> fcontent) \<Rightarrow> world \<Rightarrow> downloader \<Rightarrow> outcome \<times> world \<times> downloader" where
  "downloadClient remote w d =
     (let root = d_root d; v = d_version d;
          p = path_join root [''versions'', v, v @ ''.json''] in
      case read_json w p of
        Inl e \<Rightarrow> (Pending e, w, d\<lparr>d_file := JStr (render p)\<rparr>)
      | Inr file \<Rightarrow>
          (let d' = d\<lparr>d_file := file\<rparr> in
           case bindE (getp file ''downloads'') (\<lambda>ds.
                bindE (getp ds ''client'') (\<lambda>c. getp c ''url'')) of
             Inl e \<Rightarrow> (Pending e, w, d')
           | Inr client \<Rightarrow>
               (let w1 = ensure_dir w (path_join root [''versions'', v]) in
                case down remote w1 client (path_join root [''versions'', v]) (v @ ''.jar'') of
                  (Inl e, w2) \<Rightarrow> (Rejected ErrorDescarga, w2, d')
                | (Inr u, w2) \<Rightarrow> (Resolved, w2, d'))))"

text \<open>What \<^verbatim>\<open>for (const key in objects)\<close> visits, as the values
  \<^verbatim>\<open>objects[key]\<close>: the properties of an object, the elements of an array, the
  characters of a string, and nothing for any other value.\<close>

definition for_in_values :: "jsval \<Rightarrow> jsval list" where
  "for_in_values v =
     (case v of
        JObj kvs \<Rightarrow> map snd kvs
      | JArr xs \<Rightarrow> xs
      | JStr s \<Rightarrow> map (\<lambda>c. JStr [c]) s
      | _ \<Rightarrow> [])"

text \<open>Line 145, \<^verbatim>\<open>assetFile.objects.hasOwnProperty.call(assetFile.objects, key)\<close>, for a
  key the loop visits. When the index itself has a property named
  \<^verbatim>\<open>hasOwnProperty\<close>, that property (a parsed value, never a function) is what
  \<^verbatim>\<open>assetFile.objects.hasOwnProperty\<close> reads, and calling its \<^verbatim>\<open>call\<close> throws a
  TypeError. Otherwise the method is the inherited one, and it holds for every key that
  \<^verbatim>\<open>for ... in\<close> visits on a parsed value.\<close>

definition hasOwnProperty_call :: "jsval \<Rightarrow> error + bool" where
  "hasOwnProperty_call objects =
     (case objects of
        JObj kvs \<Rightarrow> if map_of kvs ''hasOwnProperty'' = None then Inr True else Inl TypeError
      | _ \<Rightarrow> Inr True)"

text \<open>The statements guarded by that test (lines 146 to 156) for one entry
  \<^verbatim>\<open>fileName\<close>. The transfer is not awaited and its failure is only logged; the state
  returned is the one after the transfer has ended.\<close>

definition asset_step ::
  "(string \<rightharpoonup> fcontent) \<Rightarrow> world \<Rightarrow> path \<Rightarrow> jsval \<Rightarrow> error + world" where
  "asset_step remote w root fileName =
     bindE (getp fileName ''hash'') (\<lambda>fileHash.
       case fileHash of
         JStr h \<Rightarrow>
           (let fileSubHash = take 2 h;
                w1 = ensure_dir w (path_join root [''assets'', ''objects'', fileSubHash])
            in Inr (snd (down remote w1
                      (JStr (url_resource @ ''/'' @ fileSubHash @ ''/'' @ h))
                      (path_join root [''assets'', ''objects'', fileSubHash]) h)))
       | _ \<Rightarrow> Inl TypeError)"

text \<open>The loop of lines 144 to 158 over the values \<^verbatim>\<open>objects[key]\<close>: each turn
  evaluates the test of line 145 on \<open>objects\<close> and then runs the guarded statements. A
  throw ends the loop, with the transfers started so far.\<close>

fun asset_loop ::
  "(string \<rightharpoonup> fcontent) \<Rightarrow> world \<Rightarrow> path \<Rightarrow> jsval \<Rightarrow> jsval list
     \<Rightarrow> (error + unit) \<times> world" where
  "asset_loop remote w root objects [] = (Inr (), w)"
| "asset_loop remote w root objects (fileName # rest) =
     (case hasOwnProperty_call objects of
        Inl e \<Rightarrow> (Inl e, w)
      | Inr own \<Rightarrow>
          if own then
            (case asset_step remote w root fileName of
               Inl e \<Rightarrow> (Inl e, w)
             | Inr w' \<Rightarrow> asset_loop remote w' root objects rest)
          else asset_loop remote w root objects rest)"

definition downloadAssets ::
  "(string \<rightharpoonup> fcontent) \<Rightarrow> world \<Rightarrow> downloader \<Rightarrow> outcome \<times> world" where
  "downloadAssets remote w d =
     (let root = d_root d; v = d_version d;
          w1 = ensure_dir_recursive w (path_join root [''assets'', ''indexes'']) in
      case bindE (getp (d_file d) ''assetIndex'') (\<lambda>a. getp a ''url'') of
        Inl e \<Rightarrow> (Pending e, w1)
      | Inr url \<Rightarrow>
      (case down remote w1 url (path_join root [''assets'', ''indexes'']) (v @ ''.json'') of
         (Inl e, w2) \<Rightarrow> (Pending e, w2)
       | (Inr u, w2) \<Rightarrow>
       (case down remote w2 url (path_join root [''cache'', ''json'']) (v @ ''.json'') of
          (Inl e, w3) \<Rightarrow> (Pending e, w3)
        | (Inr u', w3) \<Rightarrow>
        (case read_json w3 (path_join root [''assets'', ''indexes'', v @ ''.json'']) of
           Inl e \<Rightarrow> (Pending e, w3)
         | Inr assetFile \<Rightarrow>
             (let w4 = ensure_dir w3 (path_join root [''assets'', ''objects'']) in
              case getp assetFile ''objects'' of
                Inl e \<Rightarrow> (Pending e, w4)
              | Inr objects \<Rightarrow>
                  (case asset_loop remote w4 root objects (for_in_values objects) of
                     (Inl e, w5) \<Rightarrow> (Pending e, w5)
                   | (Inr u'', w5) \<Rightarrow> (Resolved, w5)))))))"

text \<open>Line 169 of \<^verbatim>\<open>downloadNatives\<close>:
  \<^verbatim>\<open>typeof el === 'object' && (el['natives-windows'] ? el['natives-windows'] : el['natives-windows-64'])\<close>.\<close>

definition select_natives :: "jsval \<Rightarrow> error + jsval" where
  "select_natives el =
     (case el of
        JNull \<Rightarrow> Inl TypeError
      | JObj kvs \<Rightarrow>
          bindE (getp el ''natives-windows'') (\<lambda>nw.
            if truthy nw then Inr nw else getp el ''natives-windows-64'')
      | JArr xs \<Rightarrow> Inr JUndefined
      | _ \<Rightarrow> Inr (JBool False))"

text \<open>\<^verbatim>\<open>new Zip(archive).extractAllTo(target, true)\<close>.\<close>

definition extractAllTo :: "world \<Rightarrow> path \<Rightarrow> path \<Rightarrow> error + world" where
  "extractAllTo w archive target =
     (case files w archive of
        Some Archive \<Rightarrow>
          Inr (w\<lparr>unzipped := unzipped w @ [(archive, target)],
                 folders := insert target (folders w)\<rparr>)
      | _ \<Rightarrow> Inl BadArchive)"

text \<open>\<^verbatim>\<open>natives.url.includes('nightly')\<close>.\<close>

definition js_includes :: "jsval \<Rightarrow> string \<Rightarrow> error + bool" where
  "js_includes v sub = (case v of JStr s \<Rightarrow> Inr (includes_str s sub) | _ \<Rightarrow> Inl TypeError)"

text \<open>The arguments of the call of \<^verbatim>\<open>this.down\<close> on line 172, evaluated inside the
  \<^verbatim>\<open>try\<close> before anything is awaited: \<^verbatim>\<open>natives.url\<close> and
  \<^verbatim>\<open>path.basename(natives.path)\<close>, which throws on a path that is not a string.\<close>

definition native_args :: "jsval \<Rightarrow> error + (jsval \<times> string)" where
  "native_args natives =
     bindE (getp natives ''url'') (\<lambda>u.
     bindE (getp natives ''path'') (\<lambda>p.
       case p of JStr s \<Rightarrow> Inr (u, basename s) | _ \<Rightarrow> Inl TypeError))"

text \<open>The body of the \<^verbatim>\<open>forEach\<close> of \<^verbatim>\<open>downloadNatives\<close> for one library, run to its
  end. \<open>Inl\<close> is a throw: before the \<^verbatim>\<open>try\<close> it is an unhandled rejection of the
  callback, inside it is caught by the handler, which calls \<^verbatim>\<open>reject\<close>.\<close>

definition native_step ::
  "(string \<rightharpoonup> fcontent) \<Rightarrow> world \<Rightarrow> path \<Rightarrow> string \<Rightarrow> jsval \<Rightarrow> (error + unit) \<times> world" where
  "native_step remote w root v element =
     (case bindE (getp element ''downloads'') (\<lambda>ds.
           bindE (getp ds ''classifiers'') select_natives) of
        Inl e \<Rightarrow> (Inl e, w)
      | Inr natives \<Rightarrow>
          if \<not> truthy natives then (Inr (), w)
          else
            (case native_args natives of
               Inl e \<Rightarrow> (Inl e, w)
             | Inr (u, name) \<Rightarrow>
                 (case down remote w u (path_join root [''natives'']) name of
                    (Inl e, w1) \<Rightarrow> (Inl e, w1)
                  | (Inr x, w1) \<Rightarrow>
                      (case js_includes u ''nightly'' of
                         Inl e \<Rightarrow> (Inl e, w1)
                       | Inr nightly \<Rightarrow>
                           if v = ''1.8'' \<and> nightly then
                             (case unlinkSync w1 (path_join root [''natives'', name]) of
                                Inl e \<Rightarrow> (Inl e, w1)
                              | Inr w2 \<Rightarrow> (Inr (), w2))
                           else
                             (case extractAllTo w1 (path_join root [''natives'', name])
                                     (path_join root [''natives'', v]) of
                                Inl e \<Rightarrow> (Inl e, w1)
                              | Inr w2 \<Rightarrow>
                                  (case unlinkSync w2 (path_join root [''natives'', name]) of
                                     Inl e \<Rightarrow> (Inl e, w2)
                                   | Inr w3 \<Rightarrow> (Inr (), w3)))))))"

text \<open>Whether the callback for one library calls \<^verbatim>\<open>reject\<close> while \<^verbatim>\<open>forEach\<close> is
  still running, that is before line 183 resolves the step: it does when the throw inside
  the \<^verbatim>\<open>try\<close> comes before the first \<^verbatim>\<open>await\<close>, from the arguments of
  \<^verbatim>\<open>this.down\<close>. A handler that runs after a transfer has failed, or after the
  extraction has, calls \<^verbatim>\<open>reject\<close> on a promise that is resolved already.\<close>

definition native_rejects :: "jsval \<Rightarrow> bool" where
  "native_rejects element =
     (case bindE (getp element ''downloads'') (\<lambda>ds.
           bindE (getp ds ''classifiers'') select_natives) of
        Inl e \<Rightarrow> False
      | Inr natives \<Rightarrow>
          truthy natives \<and> (case native_args natives of Inl e \<Rightarrow> True | Inr ua \<Rightarrow> False))"

text \<open>A \<^verbatim>\<open>forEach\<close> over \<^verbatim>\<open>async\<close> callbacks: a throw in one callback does not stop
  the others.\<close>

fun for_each_async ::
  "(world \<Rightarrow> jsval \<Rightarrow> (error + unit) \<times> world) \<Rightarrow> world \<Rightarrow> jsval list \<Rightarrow> world" where
  "for_each_async body w [] = w"
| "for_each_async body w (x # xs) = for_each_async body (snd (body w x)) xs"

text \<open>\<^verbatim>\<open>downloadNatives()\<close>: the executor is not \<^verbatim>\<open>async\<close>, so a throw of its own
  rejects the promise; so does the first callback that calls \<^verbatim>\<open>reject\<close> during the
  \<^verbatim>\<open>forEach\<close>. The callbacks of the other libraries run all the same.\<close>

definition downloadNatives ::
  "(string \<rightharpoonup> fcontent) \<Rightarrow> world \<Rightarrow> downloader \<Rightarrow> outcome \<times> world" where
  "downloadNatives remote w d =
     (let root = d_root d;
          w1 = ensure_dir w (path_join root [''natives'']) in
      case bindE (getp (d_file d) ''libraries'') as_array of
        Inl e \<Rightarrow> (Rejected e, w1)
      | Inr els \<Rightarrow>
          (if list_ex native_rejects els then Rejected ErrorDescarga else Resolved,
           for_each_async (\<lambda>w' el. native_step remote w' root (d_version d) el) w1 els))"

text \<open>The body of the \<^verbatim>\<open>forEach\<close> of \<^verbatim>\<open>downloadLibraries\<close> for one library.\<close>

definition library_step ::
  "(string \<rightharpoonup> fcontent) \<Rightarrow> world \<Rightarrow> path \<Rightarrow> jsval \<Rightarrow> (error + unit) \<times> world" where
  "library_step remote w root element =
     (case bindE (getp element ''downloads'') (\<lambda>ds. getp ds ''artifact'') of
        Inl e \<Rightarrow> (Inl e, w)
      | Inr artifact \<Rightarrow>
          if artifact \<noteq> JUndefined then
            (case getp artifact ''path'' of
               Inr (JStr jarFile) \<Rightarrow>
                 (let libRoot = join_with ''/'' (butlast (split_on CHR ''/'' jarFile));
                      libName = basename jarFile;
                      w1 = ensure_dir_recursive w (path_join root [''libraries'', libRoot])
                  in case getp artifact ''url'' of
                       Inl e \<Rightarrow> (Inl e, w1)
                     | Inr url \<Rightarrow>
                         down remote w1 url (path_join root [''libraries'', libRoot]) libName)
             | Inr other \<Rightarrow> (Inl TypeError, w)
             | Inl e \<Rightarrow> (Inl e, w))
          else (Inr (), w))"

definition downloadLibraries ::
  "(string \<rightharpoonup> fcontent) \<Rightarrow> world \<Rightarrow> downloader \<Rightarrow> outcome \<times> world" where
  "downloadLibraries remote w d =
     (let root = d_root d;
          w1 = ensure_dir w (path_join root [''libraries'']) in
      case bindE (getp (d_file d) ''libraries'') as_array of
        Inl e \<Rightarrow> (Rejected e, w1)
      | Inr els \<Rightarrow>
          (Resolved, for_each_async (\<lambda>w' el. library_step remote w' root el) w1 els))"

text \<open>
  \<^verbatim>\<open>download(version, root)\<close>. Each step is awaited inside the \<^verbatim>\<open>async\<close> executor, so
  a step that rejects makes the executor throw and a step that never settles stops it:
  the later steps do not run, and the promise of \<^verbatim>\<open>download\<close> stays as it is, rejected
  already when the version was empty and pending otherwise.
\<close>

definition after_step :: "bool \<Rightarrow> outcome \<Rightarrow> outcome option" where
  "after_step no_version r =
     (case r of
        Resolved \<Rightarrow> None
      | Rejected e \<Rightarrow> Some (if no_version then Rejected SinVersion else Pending e)
      | Pending e \<Rightarrow> Some (if no_version then Rejected SinVersion else Pending e))"

definition download ::
  "(string \<rightharpoonup> fcontent) \<Rightarrow> world \<Rightarrow> string \<Rightarrow> path \<Rightarrow> outcome \<times> world" where
  "download remote w v root =
     (let d = \<lparr>d_root = root, d_version = v, d_file = JUndefined\<rparr>;
          nov = (v = []) in
      case downloadVersion remote w d of (r1, w1) \<Rightarrow>
      (case after_step nov r1 of Some r \<Rightarrow> (r, w1) | None \<Rightarrow>
      (case downloadClient remote w1 d of (r2, w2, d2) \<Rightarrow>
      (case after_step nov r2 of Some r \<Rightarrow> (r, w2) | None \<Rightarrow>
      (case downloadAssets remote w2 d2 of (r3, w3) \<Rightarrow>
      (case after_step nov r3 of Some r \<Rightarrow> (r, w3) | None \<Rightarrow>
      (case downloadLibraries remote w3 d2 of (r4, w4) \<Rightarrow>
      (case after_step nov r4 of Some r \<Rightarrow> (r, w4) | None \<Rightarrow>
      (case downloadNatives remote w4 d2 of (r5, w5) \<Rightarrow>
      (case after_step nov r5 of Some r \<Rightarrow> (r, w5) | None \<Rightarrow>
         (if nov then Rejected SinVersion else Resolved, w5)))))))))))"

subsection \<open>Names used to state the properties of the downloader\<close>






text \<open>Two states whose request logs continue the logs \<open>a\<close> and \<open>b\<close> with the same
  transfers.\<close>

definition same_new :: "(string \<times> path) list \<Rightarrow> (string \<times> path) list \<Rightarrow> world \<Rightarrow> world \<Rightarrow> bool" where
  "same_new a b w w' = (\<exists>s. requests w = a @ s \<and> requests w' = b @ s)"

text \<open>The cache directory is there whenever its subdirectory \<^verbatim>\<open>json\<close> is: what line 95
  of \<^verbatim>\<open>downloadVersion\<close> tests after creating \<^verbatim>\<open>cache/json\<close>.\<close>

definition cache_ok :: "path \<Rightarrow> world \<Rightarrow> bool" where
  "cache_ok root w =
     (existsSync w (path_join root [''cache'', ''json'']) \<longrightarrow> existsSync w (path_join root [''cache'']))"

text \<open>The request log starts with the requests \<open>A\<close>.\<close>

definition issued :: "(string \<times> path) list \<Rightarrow> world \<Rightarrow> bool" where
  "issued A w = (\<exists>s. requests w = A @ s)"


section \<open>Example inputs\<close>

definition libs_example :: "dirent list" where
  "libs_example =
     [DirEnt ''a'' [FileEnt ''guava-3.2.1.jar''],
      DirEnt ''b'' [FileEnt ''guava-3.2.1.jar'', FileEnt ''asm-9.jar'', FileEnt ''notes.txt'']]"

definition plan_example :: plan where
  "plan_example = \<lparr>p_version = ''1.12.2'', p_custom = None, p_uuid = JStr ''u-1'',
     p_reqLibs = [], p_mainClass = JStr ''net.minecraft.client.main.Main'',
     p_gameArgs = JArr [JStr ''--username'', JStr ''${auth_player_name}'',
                        JStr ''${future_placeholder}'', JStr ''--width'',
                        JStr ''${resolution_width}''],
     p_libs = ''/mc/versions/1.12.2/1.12.2.jar''\<rparr>"

definition options_example :: options where
  "options_example = \<lparr>memory_min = ''1G'', memory_max = ''2G'', gameDirectory = [''mc''],
     version = ''1.12.2'', username = ''Alex''\<rparr>"

definition usercache_example :: jsval where
  "usercache_example =
     JArr [JNull, JObj [(''name'', JStr ''Steve''), (''uuid'', JStr ''u-1'')]]"

definition cache_world :: world where
  "cache_world = \<lparr>files = [[''mc'', ''usercache.json''] \<mapsto> Json usercache_example],
     folders = {[''mc'']}, listing = Map.empty, requests = [], unzipped = []\<rparr>"

definition usercache_good :: jsval where
  "usercache_good =
     JArr [JObj [(''name'', JStr ''Alex''), (''uuid'', JStr ''u-0'')],
           JObj [(''name'', JStr ''Steve''), (''uuid'', JStr ''u-1'')]]"

definition cache_world_good :: world where
  "cache_world_good = \<lparr>files = [[''mc'', ''usercache.json''] \<mapsto> Json usercache_good],
     folders = {[''mc'']}, listing = Map.empty, requests = [], unzipped = []\<rparr>"

definition base_doc :: jsval where
  "base_doc = JObj [(''mainClass'', JStr ''A''),
     (''minecraftArguments'', JStr ''--username ${auth_player_name}''),
     (''libraries'', JArr [JObj [(''downloads'',
         JObj [(''artifact'', JObj [(''path'', JStr ''a/lib-1.jar'')])])]])]"

definition overlay_doc :: jsval where
  "overlay_doc = JObj [(''mainClass'', JStr ''B''),
     (''arguments'', JObj [(''game'', JArr [JStr ''--fabric''])]),
     (''libraries'', JArr [JObj [(''name'', JStr ''net.fabricmc:loader:0.1'')]])]"

definition launch_world :: world where
  "launch_world = \<lparr>files =
       [[''mc'', ''versions'', ''1.19'', ''1.19.json''] \<mapsto> Json base_doc,
        [''mc'', ''versions'', ''1.19-fabric-0.1'', ''1.19-fabric-0.1.json''] \<mapsto> Json overlay_doc,
        [''mc'', ''versions'', ''1.19-forge-41'', ''1.19-forge-41.json''] \<mapsto> Json overlay_doc,
        [''mc'', ''options.txt''] \<mapsto> Bytes],
     folders = {[''mc'']},
     listing = [[''mc'', ''libraries''] \<mapsto>
        [DirEnt ''a'' [FileEnt ''lib-1.jar''], DirEnt ''f'' [FileEnt ''loader-0.1.jar'']]],
     requests = [], unzipped = []\<rparr>"

definition fabric_options :: options where
  "fabric_options = \<lparr>memory_min = ''1G'', memory_max = ''2G'', gameDirectory = [''mc''],
     version = ''1.19-fabric-0.1'', username = ''Steve''\<rparr>"

definition forge_options :: options where
  "forge_options = \<lparr>memory_min = ''1G'', memory_max = ''2G'', gameDirectory = [''mc''],
     version = ''1.19-forge-41'', username = ''Steve''\<rparr>"

definition plain_options :: options where
  "plain_options = \<lparr>memory_min = ''1G'', memory_max = ''2G'', gameDirectory = [''mc''],
     version = ''1.19'', username = ''Steve''\<rparr>"


definition manifest_example :: jsval where
  "manifest_example = JObj [(''versions'', JArr
     [JObj [(''id'', JStr ''22w01a''), (''type'', JStr ''snapshot''), (''url'', JStr ''https://m/22w01a.json'')],
      JObj [(''id'', JStr ''1.19''), (''type'', JStr ''release''), (''url'', JStr ''https://m/1.19.json'')]])]"


definition empty_world :: world where
  "empty_world = \<lparr>files = Map.empty, folders = {[''mc'']}, listing = Map.empty,
     requests = [], unzipped = []\<rparr>"

definition natives_element :: jsval where
  "natives_element = JObj [(''name'', JStr ''org.lwjgl:lwjgl:2.9''),
     (''downloads'', JObj [(''classifiers'', JObj
        [(''natives-windows'', JObj [(''path'', JStr ''org/lwjgl/lwjgl-natives-windows.jar''),
                                    (''url'', JStr ''https://l/w.jar'')]),
         (''natives-windows-64'', JObj [(''path'', JStr ''org/lwjgl/lwjgl-natives-windows-64.jar''),
                                    (''url'', JStr ''https://l/w64.jar'')])])])]"

definition manifest0 :: jsval where
  "manifest0 = JObj [(''versions'', JArr
     [JObj [(''id'', JStr ''1.0''), (''type'', JStr ''release''), (''url'', JStr ''https://m/1.0.json'')]])]"

definition meta0 :: jsval where
  "meta0 = JObj [
     (''downloads'', JObj [(''client'', JObj [(''url'', JStr ''https://d/client.jar'')])]),
     (''assetIndex'', JObj [(''url'', JStr ''https://m/index.json'')]),
     (''mainClass'', JStr ''net.minecraft.client.Minecraft''),
     (''minecraftArguments'', JStr ''--username ${auth_player_name}''),
     (''libraries'', JArr [
        JObj [(''name'', JStr ''a:lib:1''), (''downloads'', JObj [
           (''artifact'', JObj [(''path'', JStr ''a/lib-1.jar''), (''url'', JStr ''https://l/lib-1.jar'')]),
           (''classifiers'', JObj [(''natives-windows'',
               JObj [(''path'', JStr ''a/lib-1-natives-windows.jar''),
                     (''url'', JStr ''https://l/lib-1-natives.jar'')])])])]])]"

definition index0 :: jsval where
  "index0 = JObj [(''objects'', JObj [(''icons/icon.png'', JObj [(''hash'', JStr ''abcd''), (''size'', JNum 10)])])]"

definition remote0 :: "string \<rightharpoonup> fcontent" where
  "remote0 = [url_meta \<mapsto> Json manifest0, ''https://m/1.0.json'' \<mapsto> Json meta0,
     ''https://d/client.jar'' \<mapsto> Bytes, ''https://m/index.json'' \<mapsto> Json index0,
     ''https://resources.download.minecraft.net/ab/abcd'' \<mapsto> Bytes,
     ''https://l/lib-1.jar'' \<mapsto> Bytes, ''https://l/lib-1-natives.jar'' \<mapsto> Archive]"

text \<open>A version directory that is complete for version 1.0: every file the pipeline
  downloads is there, in the directories it creates.\<close>

definition complete_world :: world where
  "complete_world = \<lparr>files =
       [[''mc'', ''cache'', ''json'', ''version_manifest.json''] \<mapsto> Json manifest0,
        [''mc'', ''versions'', ''1.0'', ''1.0.json''] \<mapsto> Json meta0,
        [''mc'', ''versions'', ''1.0'', ''1.0.jar''] \<mapsto> Bytes,
        [''mc'', ''assets'', ''indexes'', ''1.0.json''] \<mapsto> Json index0,
        [''mc'', ''cache'', ''json'', ''1.0.json''] \<mapsto> Json index0,
        [''mc'', ''assets'', ''objects'', ''ab'', ''abcd''] \<mapsto> Bytes,
        [''mc'', ''libraries'', ''a'', ''lib-1.jar''] \<mapsto> Bytes],
     folders = {[''mc''], [''mc'', ''cache''], [''mc'', ''cache'', ''json''],
        [''mc'', ''versions''], [''mc'', ''versions'', ''1.0''], [''mc'', ''assets''],
        [''mc'', ''assets'', ''indexes''], [''mc'', ''assets'', ''objects''],
        [''mc'', ''assets'', ''objects'', ''ab''], [''mc'', ''libraries''],
        [''mc'', ''libraries'', ''a''], [''mc'', ''natives''], [''mc'', ''natives'', ''1.0'']},
     listing = Map.empty, requests = [], unzipped = []\<rparr>"


section \<open>Properties of the jar search\<close>

lemma includes_str_iff: "includes_str s sub \<longleftrightarrow> (\<exists>pre post. s = pre @ sub @ post)"
proof (induction s)
  case Nil
  then show ?case by auto
next
  case (Cons c cs)
  show ?case
  proof
    assume "includes_str (c # cs) sub"
    then consider "take (length sub) (c # cs) = sub" | "includes_str cs sub" by auto
    then show "\<exists>pre post. c # cs = pre @ sub @ post"
    proof cases
      case 1
      then have "c # cs = [] @ sub @ drop (length sub) (c # cs)"
        by (metis append_Nil append_take_drop_id)
      then show ?thesis by blast
    next
      case 2
      then obtain pre post where "cs = pre @ sub @ post" using Cons.IH by blast
      then have "c # cs = (c # pre) @ sub @ post" by simp
      then show ?thesis by blast
    qed
  next
    assume "\<exists>pre post. c # cs = pre @ sub @ post"
    then obtain pre post where eq: "c # cs = pre @ sub @ post" by blast
    show "includes_str (c # cs) sub"
    proof (cases pre)
      case Nil
      then have "take (length sub) (c # cs) = sub" using eq by simp
      then show ?thesis by simp
    next
      case (Cons a pre')
      then have "cs = pre' @ sub @ post" using eq by simp
      then have "includes_str cs sub" using Cons.IH by blast
      then show ?thesis by simp
    qed
  qed
qed

lemma encontrar_as_filter:
  "encontrarArchivosJAR d es req ver =
     classpath_of (filter (\<lambda>f. required_jar req f
        \<and> (ver \<in> set legacy_versions \<or> \<not> conflicting f)) (all_files d es))"
  by (induction d es req ver rule: encontrarArchivosJAR.induct)
     (simp_all add: classpath_of_def required_jar_def conflicting_def Let_def)

lemma split_last_dot:
  assumes "CHR ''.'' \<in> set n"
  shows "\<exists>ys. rev n = takeWhile (\<lambda>c. c \<noteq> CHR ''.'') (rev n) @ CHR ''.'' # ys"
proof -
  let ?P = "\<lambda>c. c \<noteq> CHR ''.''"
  have "dropWhile ?P (rev n) \<noteq> []" using assms by (simp add: dropWhile_eq_Nil_conv)
  moreover have "dropWhile ?P (rev n) \<noteq> [] \<Longrightarrow> hd (dropWhile ?P (rev n)) = CHR ''.''"
    using hd_dropWhile[of ?P "rev n"] by simp
  ultimately obtain ys where "dropWhile ?P (rev n) = CHR ''.'' # ys"
    by (cases "dropWhile ?P (rev n)") auto
  then have "rev n = takeWhile ?P (rev n) @ CHR ''.'' # ys"
    using takeWhile_dropWhile_id[of ?P "rev n"] by simp
  then show ?thesis by blast
qed

lemma extname_jar_iff: "extname n = ''.jar'' \<longleftrightarrow> (\<exists>p. p \<noteq> [] \<and> n = p @ ''.jar'')"
proof
  assume h: "extname n = ''.jar''"
  let ?ext = "takeWhile (\<lambda>c. c \<noteq> CHR ''.'') (rev n)"
  let ?before = "drop (Suc (length ?ext)) (rev n)"
  from h have dot: "CHR ''.'' \<in> set n" and nb: "?before \<noteq> []" and e: "rev ?ext = ''jar''"
    by (simp_all add: extname_def Let_def split: if_splits)
  from split_last_dot[OF dot] obtain ys where r: "rev n = ?ext @ CHR ''.'' # ys" by blast
  have "drop (Suc (length ?ext)) (?ext @ CHR ''.'' # ys) = ys" by simp
  then have "?before = ys" using r by simp
  with nb have ys: "ys \<noteq> []" by simp
  from r have "rev (rev n) = rev (?ext @ CHR ''.'' # ys)" by simp
  then have "n = rev ys @ CHR ''.'' # rev ?ext" by simp
  then have "n = rev ys @ ''.jar''" using e by simp
  then show "\<exists>p. p \<noteq> [] \<and> n = p @ ''.jar''" using ys by auto
next
  assume "\<exists>p. p \<noteq> [] \<and> n = p @ ''.jar''"
  then obtain p where p: "p \<noteq> []" "n = p @ ''.jar''" by blast
  then show "extname n = ''.jar''"
    by (simp add: extname_def Let_def)
qed

text \<open>
  Claim C6. For a version in the legacy set 1.14, 1.14.1, 1.14.2, 1.14.3 the search emits
  every file below the libraries root that is a jar and whose name is required, also one
  whose name contains 3.2.1; for every other version it emits the required jars whose
  name does not contain 3.2.1, so a jar with 3.2.1 in its name is left out even when
  its name is required.
\<close>

theorem legacy_quirk:
  "(ver \<in> set legacy_versions \<longrightarrow>
      encontrarArchivosJAR d es req ver =
        classpath_of (filter (required_jar req) (all_files d es)))
   \<and> (ver \<notin> set legacy_versions \<longrightarrow>
      encontrarArchivosJAR d es req ver =
        classpath_of (filter (\<lambda>f. required_jar req f \<and> \<not> conflicting f) (all_files d es)))"
  by (simp add: encontrar_as_filter)


theorem legacy_quirk_witness:
  "''1.14.2'' \<in> set legacy_versions
   \<and> encontrarArchivosJAR [''mc'', ''libraries''] libs_example
        [''guava-3.2.1.jar'', ''asm-9.jar''] ''1.14.2''
      = ''/mc/libraries/a/guava-3.2.1.jar;/mc/libraries/b/guava-3.2.1.jar;/mc/libraries/b/asm-9.jar;''
   \<and> ''1.20'' \<notin> set legacy_versions
   \<and> encontrarArchivosJAR [''mc'', ''libraries''] libs_example
        [''guava-3.2.1.jar'', ''asm-9.jar''] ''1.20''
      = ''/mc/libraries/b/asm-9.jar;''"
proof -
  have a: "''1.14.2'' \<in> set legacy_versions" by (simp add: legacy_versions_def)
  have b: "''1.20'' \<notin> set legacy_versions" by (simp add: legacy_versions_def)
  have fl: "all_files [''mc'', ''libraries''] libs_example =
     [([''mc'', ''libraries'', ''a'', ''guava-3.2.1.jar''], ''guava-3.2.1.jar''),
      ([''mc'', ''libraries'', ''b'', ''guava-3.2.1.jar''], ''guava-3.2.1.jar''),
      ([''mc'', ''libraries'', ''b'', ''asm-9.jar''], ''asm-9.jar''),
      ([''mc'', ''libraries'', ''b'', ''notes.txt''], ''notes.txt'')]"
    by (simp add: libs_example_def path_join_def norm_step_def)
  have e: "extname ''guava-3.2.1.jar'' = ''.jar''" "extname ''asm-9.jar'' = ''.jar''"
    "extname ''notes.txt'' = ''.txt''"
    by (simp_all add: extname_def)
  have c: "includes_str ''guava-3.2.1.jar'' ''3.2.1''" "\<not> includes_str ''asm-9.jar'' ''3.2.1''"
    by simp_all
  from legacy_quirk[of "''1.14.2''" "[''mc'', ''libraries'']" libs_example
      "[''guava-3.2.1.jar'', ''asm-9.jar'']"] a
  have 1: "encontrarArchivosJAR [''mc'', ''libraries''] libs_example
        [''guava-3.2.1.jar'', ''asm-9.jar''] ''1.14.2''
      = ''/mc/libraries/a/guava-3.2.1.jar;/mc/libraries/b/guava-3.2.1.jar;/mc/libraries/b/asm-9.jar;''"
    by (simp add: fl e classpath_of_def required_jar_def render_def)
  from legacy_quirk[of "''1.20''" "[''mc'', ''libraries'']" libs_example
      "[''guava-3.2.1.jar'', ''asm-9.jar'']"] b
  have 2: "encontrarArchivosJAR [''mc'', ''libraries''] libs_example
        [''guava-3.2.1.jar'', ''asm-9.jar''] ''1.20''
      = ''/mc/libraries/b/asm-9.jar;''"
    by (simp add: fl e c classpath_of_def required_jar_def conflicting_def render_def)
  show ?thesis using a b 1 2 by simp
qed


section \<open>Properties of the argument vector\<close>




lemma raw_args_example:
  "raw_args options_example plan_example (JArr [JStr ''--username'', JStr ''${auth_player_name}'',
                        JStr ''${future_placeholder}'', JStr ''--width'',
                        JStr ''${resolution_width}'']) =
     [JStr ''-Djava.library.path=/mc/natives/1.12.2'', JStr ''-Xmx2G'', JStr ''-Xms1G'',
      JStr ''-XX:HeapDumpPath=MojangTricksIntelDriversForPerformance_javaw.exe_minecraft.exe.heapdump'',
      JStr ''-cp'', JStr ''/mc/versions/1.12.2/1.12.2.jar'',
      JStr ''net.minecraft.client.main.Main'',
      JStr ''--username'', JStr ''${auth_player_name}'', JStr ''${future_placeholder}'',
      JStr ''--width'', JStr ''${resolution_width}'']"
  by (simp add: raw_args_def plan_example_def options_example_def js_concat_def spread_def
      path_join_def norm_step_def render_def)

lemma build_args_example:
  "build_args options_example plan_example =
     Inr [JStr ''-Djava.library.path=/mc/natives/1.12.2'', JStr ''-Xmx2G'', JStr ''-Xms1G'',
      JStr ''-XX:HeapDumpPath=MojangTricksIntelDriversForPerformance_javaw.exe_minecraft.exe.heapdump'',
      JStr ''-cp'', JStr ''/mc/versions/1.12.2/1.12.2.jar'',
      JStr ''net.minecraft.client.main.Main'',
      JStr ''--username'', JStr ''Alex'', JStr ''${future_placeholder}'',
      JStr ''--width'', JNum 856]"
proof -
  have f: "js_flat (p_gameArgs plan_example) = Inr (JArr [JStr ''--username'',
      JStr ''${auth_player_name}'', JStr ''${future_placeholder}'', JStr ''--width'',
      JStr ''${resolution_width}''])"
    by (simp add: js_flat_def plan_example_def spread_def)
  show ?thesis
    unfolding build_args_def f bindE_def
    by (simp add: raw_args_example)
       (simp add: launch_fields_def substitute1_def options_example_def plan_example_def)
qed



section \<open>Properties of the identity lookup\<close>

lemma getp_Inl_iff: "getp y k = Inl e \<longleftrightarrow> (y = JNull \<or> y = JUndefined) \<and> e = TypeError"
  by (cases y) auto

lemma find_name_hit:
  assumes "list_all (passed_over us) pre" and "getp x ''name'' = Inr (JStr us)"
  shows "find_name (pre @ x # post) us = Inr x"
  using assms
proof (induction pre)
  case Nil
  then show ?case by simp
next
  case (Cons y pre)
  then obtain n where n: "getp y ''name'' = Inr n" "n \<noteq> JStr us"
    by (cases "getp y ''name''") (auto simp: passed_over_def getp_Inl_iff)
  with Cons show ?case by simp
qed

lemma find_name_miss:
  assumes "\<not> (\<exists>pre x post. xs = pre @ x # post \<and> list_all (passed_over us) pre
            \<and> getp x ''name'' = Inr (JStr us))"
  shows "find_name xs us = Inl TypeError \<or> find_name xs us = Inr JUndefined"
  using assms
proof (induction xs)
  case Nil
  then show ?case by simp
next
  case (Cons y ys)
  show ?case
  proof (cases "getp y ''name''")
    case (Inl e)
    then have "e = TypeError" by (simp add: getp_Inl_iff)
    with Inl show ?thesis by simp
  next
    case (Inr n)
    have ne: "n \<noteq> JStr us"
    proof
      assume "n = JStr us"
      then have "y # ys = [] @ y # ys \<and> list_all (passed_over us) []
          \<and> getp y ''name'' = Inr (JStr us)" using Inr by simp
      then show False using Cons.prems by blast
    qed
    have po: "passed_over us y"
      using Inr ne by (auto simp: passed_over_def)
    have "\<not> (\<exists>pre x post. ys = pre @ x # post \<and> list_all (passed_over us) pre
            \<and> getp x ''name'' = Inr (JStr us))"
    proof
      assume "\<exists>pre x post. ys = pre @ x # post \<and> list_all (passed_over us) pre
            \<and> getp x ''name'' = Inr (JStr us)"
      then obtain pre x post where "ys = pre @ x # post" "list_all (passed_over us) pre"
        "getp x ''name'' = Inr (JStr us)" by blast
      then have "y # ys = (y # pre) @ x # post \<and> list_all (passed_over us) (y # pre)
          \<and> getp x ''name'' = Inr (JStr us)" using po by simp
      then show False using Cons.prems by blast
    qed
    then show ?thesis using Cons.IH Inr ne by simp
  qed
qed

text \<open>
  Claim C10, as amended. \<open>auth\<close> always returns a value. When \<^verbatim>\<open>usercache.json\<close>
  parses to an array with an element whose name is the user name, and every element
  before it is neither null nor carries that name, \<open>auth\<close> returns the \<^verbatim>\<open>uuid\<close>
  property of that element. In every other case it returns the generated identifier.
\<close>

theorem auth_lookup:
  "(\<forall>pre x post.
       read_json w (path_join root [''usercache.json'']) = Inr (JArr (pre @ x # post))
       \<and> list_all (passed_over us) pre \<and> getp x ''name'' = Inr (JStr us)
       \<longrightarrow> getp x ''uuid'' = Inr (auth w root us fresh))
   \<and> (\<not> (\<exists>pre x post.
       read_json w (path_join root [''usercache.json'']) = Inr (JArr (pre @ x # post))
       \<and> list_all (passed_over us) pre \<and> getp x ''name'' = Inr (JStr us))
       \<longrightarrow> auth w root us fresh = JStr fresh)"
proof (intro conjI allI impI)
  fix pre x post
  assume h: "read_json w (path_join root [''usercache.json'']) = Inr (JArr (pre @ x # post))
       \<and> list_all (passed_over us) pre \<and> getp x ''name'' = Inr (JStr us)"
  then have f: "find_name (pre @ x # post) us = Inr x"
    using find_name_hit by blast
  from h have "x \<noteq> JNull" "x \<noteq> JUndefined" by auto
  then obtain u where u: "getp x ''uuid'' = Inr u"
    by (cases "getp x ''uuid''") (auto simp: getp_Inl_iff)
  have "auth w root us fresh = u"
    using h f u by (simp add: auth_def auth_try_def bindE_def)
  with u show "getp x ''uuid'' = Inr (auth w root us fresh)" by simp
next
  assume n: "\<not> (\<exists>pre x post.
       read_json w (path_join root [''usercache.json'']) = Inr (JArr (pre @ x # post))
       \<and> list_all (passed_over us) pre \<and> getp x ''name'' = Inr (JStr us))"
  show "auth w root us fresh = JStr fresh"
  proof (cases "read_json w (path_join root [''usercache.json''])")
    case (Inl e)
    then show ?thesis by (simp add: auth_def auth_try_def bindE_def)
  next
    case (Inr fil)
    show ?thesis
    proof (cases fil)
      case (JArr xs)
      have "\<not> (\<exists>pre x post. xs = pre @ x # post \<and> list_all (passed_over us) pre
            \<and> getp x ''name'' = Inr (JStr us))"
        using n Inr JArr by auto
      then have "find_name xs us = Inl TypeError \<or> find_name xs us = Inr JUndefined"
        by (rule find_name_miss)
      then show ?thesis
        using Inr JArr by (auto simp: auth_def auth_try_def bindE_def)
    qed (simp_all add: Inr auth_def auth_try_def bindE_def)
  qed
qed

lemma read_cache_good:
  "read_json cache_world_good (path_join [''mc''] [''usercache.json'']) = Inr usercache_good"
  by (simp add: read_json_def readFileSync_def bindE_def cache_world_good_def path_join_def
      norm_step_def)

theorem auth_lookup_witness:
  "auth cache_world_good [''mc''] ''Steve'' ''fresh'' = JStr ''u-1''
   \<and> auth cache_world_good [''mc''] ''Herobrine'' ''fresh'' = JStr ''fresh''"
proof -
  let ?a = "JObj [(''name'', JStr ''Alex''), (''uuid'', JStr ''u-0'')]"
  let ?s = "JObj [(''name'', JStr ''Steve''), (''uuid'', JStr ''u-1'')]"
  have r: "read_json cache_world_good (path_join [''mc''] [''usercache.json''])
      = Inr (JArr ([?a] @ ?s # []))"
    by (simp add: read_cache_good usercache_good_def)
  have "read_json cache_world_good (path_join [''mc''] [''usercache.json''])
      = Inr (JArr ([?a] @ ?s # []))
      \<and> list_all (passed_over ''Steve'') [?a] \<and> getp ?s ''name'' = Inr (JStr ''Steve'')"
    using r by (simp add: passed_over_def)
  then have "getp ?s ''uuid'' = Inr (auth cache_world_good [''mc''] ''Steve'' ''fresh'')"
    using auth_lookup[of cache_world_good "[''mc'']" "''Steve''" "''fresh''"] by blast
  then have 1: "auth cache_world_good [''mc''] ''Steve'' ''fresh'' = JStr ''u-1''" by simp
  have "\<not> (\<exists>pre x post.
       read_json cache_world_good (path_join [''mc''] [''usercache.json''])
         = Inr (JArr (pre @ x # post))
       \<and> list_all (passed_over ''Herobrine'') pre \<and> getp x ''name'' = Inr (JStr ''Herobrine''))"
  proof
    assume "\<exists>pre x post.
       read_json cache_world_good (path_join [''mc''] [''usercache.json''])
         = Inr (JArr (pre @ x # post))
       \<and> list_all (passed_over ''Herobrine'') pre \<and> getp x ''name'' = Inr (JStr ''Herobrine'')"
    then obtain pre x post where e: "[?a, ?s] = pre @ x # post"
      and x: "getp x ''name'' = Inr (JStr ''Herobrine'')"
      by (auto simp: read_cache_good usercache_good_def)
    from e have "x \<in> set [?a, ?s]" by (metis in_set_conv_decomp)
    then show False using x by auto
  qed
  then have 2: "auth cache_world_good [''mc''] ''Herobrine'' ''fresh'' = JStr ''fresh''"
    using auth_lookup[of cache_world_good "[''mc'']" "''Herobrine''" "''fresh''"] by blast
  show ?thesis using 1 2 by simp
qed

text \<open>
  Claim C10 as stated fails: the file exists, parses, and has an entry named Steve, but
  a null element stands before it; \<^verbatim>\<open>x.name\<close> throws on it, the \<^verbatim>\<open>catch\<close> block runs and
  the generated identifier is returned instead of the entry's.
\<close>

theorem auth_null_entry_counterexample:
  "read_json cache_world (path_join [''mc''] [''usercache.json''])
     = Inr (JArr [JNull, JObj [(''name'', JStr ''Steve''), (''uuid'', JStr ''u-1'')]])
   \<and> getp (JObj [(''name'', JStr ''Steve''), (''uuid'', JStr ''u-1'')]) ''name'' = Inr (JStr ''Steve'')
   \<and> getp (JObj [(''name'', JStr ''Steve''), (''uuid'', JStr ''u-1'')]) ''uuid'' = Inr (JStr ''u-1'')
   \<and> auth cache_world [''mc''] ''Steve'' ''fresh'' = JStr ''fresh''
   \<and> auth cache_world [''mc''] ''Steve'' ''fresh'' \<noteq> JStr ''u-1''"
  by (simp add: read_json_def readFileSync_def bindE_def cache_world_def path_join_def
      norm_step_def usercache_example_def auth_def auth_try_def)


section \<open>Properties of the launch plan\<close>

lemma build_plan_Inr:
  assumes "build_plan w opts fresh = (Inr p, w')"
  shows "\<exists>ver custom file reqLibs mainClass gameArgs libs.
      parse_version (version opts) = Inr (ver, custom)
    \<and> read_json w (path_join (gameDirectory opts) [''versions'', ver, ver @ ''.json'']) = Inr file
    \<and> base_plan file = Inr (reqLibs, mainClass, gameArgs)
    \<and> (case custom of
          None \<Rightarrow> w' = createProfile w (gameDirectory opts)
                   \<and> (p_reqLibs p, p_mainClass p, p_gameArgs p) = (reqLibs, mainClass, gameArgs)
        | Some c \<Rightarrow>
            (\<exists>customFile.
               read_json (createProfile w (gameDirectory opts))
                 (path_join (gameDirectory opts) [''versions'', c, c @ ''.json'']) = Inr customFile
             \<and> custom_plan customFile reqLibs gameArgs
                 = Inr (p_reqLibs p, p_mainClass p, p_gameArgs p)
             \<and> remove_options (createProfile w (gameDirectory opts)) (gameDirectory opts) = Inr w'))
    \<and> find_libs w' (gameDirectory opts) (p_reqLibs p) ver = Inr libs
    \<and> p_version p = ver \<and> p_custom p = custom
    \<and> p_uuid p = auth (createProfile w (gameDirectory opts)) (gameDirectory opts) (username opts) fresh
    \<and> p_libs p = libs @ render (game_jar (gameDirectory opts) ver custom)"
  using assms
  unfolding build_plan_def Let_def bindE_def
  by (auto split: sum.splits option.splits prod.splits)


lemmas launch_eval =
  build_plan_def parse_version_def match_here_def is_digit_def is_word_def at_boundary_def
  read_json_def readFileSync_def bindE_def path_join_def norm_step_def createProfile_def
  existsSync_def writeFileSync_def auth_def auth_try_def base_plan_def as_array_def
  base_lib_def basename_def js_split_def custom_plan_def custom_lib_def coord_jar_def
  js_push_def remove_options_def unlinkSync_def find_libs_def game_jar_def render_def
  legacy_versions_def extname_def Let_def

lemma parse_fabric: "parse_version ''1.19-fabric-0.1'' = Inr (''1.19'', Some ''1.19-fabric-0.1'')"
  by (simp add: launch_eval)

lemma parse_forge: "parse_version ''1.19-forge-41'' = Inr (''1.19'', Some ''1.19-forge-41'')"
  by (simp add: launch_eval)

lemma parse_plain: "parse_version ''1.19'' = Inr (''1.19'', None)"
  by (simp add: launch_eval)

lemma base_plan_example:
  "base_plan base_doc = Inr ([''lib-1.jar''], JStr ''A'',
     JArr [JStr ''--username'', JStr ''${auth_player_name}''])"
  by (simp add: base_doc_def launch_eval)

lemma custom_plan_example:
  "custom_plan overlay_doc [''lib-1.jar''] (JArr [JStr ''--username'', JStr ''${auth_player_name}''])
     = Inr ([''lib-1.jar'', ''loader-0.1.jar''], JStr ''B'',
         JArr [JStr ''--username'', JStr ''${auth_player_name}'', JArr [JStr ''--fabric'']])"
  by (simp add: overlay_doc_def launch_eval)

lemma build_plan_fabric:
  "fst (build_plan launch_world fabric_options ''fresh'') =
     Inr \<lparr>p_version = ''1.19'', p_custom = Some ''1.19-fabric-0.1'', p_uuid = JStr ''fresh'',
          p_reqLibs = [''lib-1.jar'', ''loader-0.1.jar''], p_mainClass = JStr ''B'',
          p_gameArgs = JArr [JStr ''--username'', JStr ''${auth_player_name}'',
                             JArr [JStr ''--fabric'']],
          p_libs = ''/mc/libraries/a/lib-1.jar;/mc/libraries/f/loader-0.1.jar;/mc/versions/1.19/1.19.jar''\<rparr>"
  unfolding build_plan_def fabric_options_def
  by (simp add: parse_fabric)
     (simp add: launch_world_def base_plan_example custom_plan_example
        read_json_def readFileSync_def bindE_def path_join_def norm_step_def createProfile_def
        existsSync_def writeFileSync_def auth_def auth_try_def remove_options_def unlinkSync_def
        find_libs_def game_jar_def render_def legacy_versions_def extname_def Let_def)


lemma build_plan_forge:
  "fst (build_plan launch_world forge_options ''fresh'') =
     Inr \<lparr>p_version = ''1.19'', p_custom = Some ''1.19-forge-41'', p_uuid = JStr ''fresh'',
          p_reqLibs = [''lib-1.jar'', ''loader-0.1.jar''], p_mainClass = JStr ''B'',
          p_gameArgs = JArr [JStr ''--username'', JStr ''${auth_player_name}'',
                             JArr [JStr ''--fabric'']],
          p_libs = ''/mc/libraries/a/lib-1.jar;/mc/libraries/f/loader-0.1.jar;/mc/versions/1.19-forge-41/1.19-forge-41.jar''\<rparr>"
  unfolding build_plan_def forge_options_def
  by (simp add: parse_forge)
     (simp add: launch_world_def base_plan_example custom_plan_example
        read_json_def readFileSync_def bindE_def path_join_def norm_step_def createProfile_def
        existsSync_def writeFileSync_def auth_def auth_try_def remove_options_def unlinkSync_def
        find_libs_def game_jar_def render_def legacy_versions_def extname_def Let_def)

lemma build_plan_plain:
  "fst (build_plan launch_world plain_options ''fresh'') =
     Inr \<lparr>p_version = ''1.19'', p_custom = None, p_uuid = JStr ''fresh'',
          p_reqLibs = [''lib-1.jar''], p_mainClass = JStr ''A'',
          p_gameArgs = JArr [JStr ''--username'', JStr ''${auth_player_name}''],
          p_libs = ''/mc/libraries/a/lib-1.jar;/mc/versions/1.19/1.19.jar''\<rparr>"
  unfolding build_plan_def plain_options_def
  by (simp add: parse_plain)
     (simp add: launch_world_def base_plan_example
        read_json_def readFileSync_def bindE_def path_join_def norm_step_def createProfile_def
        existsSync_def writeFileSync_def auth_def auth_try_def
        find_libs_def game_jar_def render_def legacy_versions_def extname_def Let_def)

text \<open>
  Claim C1, as amended. When the plan is built, \<^verbatim>\<open>custom\<close> is the full version string
  exactly when it differs from the matched base version, and the classpath is the result
  of the jar search followed by one game jar: the base version's jar
  \<^verbatim>\<open>versions/<base>/<base>.jar\<close> when there is no overlay or the overlay's id contains
  \<^verbatim>\<open>fabric\<close>, and the overlay's jar \<^verbatim>\<open>versions/<overlay>/<overlay>.jar\<close> for every
  other overlay.
\<close>

theorem game_jar_on_classpath:
  assumes "build_plan w opts fresh = (Inr p, w')"
  shows "parse_version (version opts) = Inr (p_version p, p_custom p)
     \<and> p_custom p = (if version opts \<noteq> p_version p then Some (version opts) else None)
     \<and> (\<exists>libs. find_libs w' (gameDirectory opts) (p_reqLibs p) (p_version p) = Inr libs
          \<and> p_libs p = libs @ render (path_join (gameDirectory opts)
               [''versions'',
                (case p_custom p of None \<Rightarrow> p_version p
                 | Some c \<Rightarrow> if includes_str c ''fabric'' then p_version p else c),
                (case p_custom p of None \<Rightarrow> p_version p
                 | Some c \<Rightarrow> if includes_str c ''fabric'' then p_version p else c) @ ''.jar'']))"
proof -
  from build_plan_Inr[OF assms] obtain libs where
    pv: "parse_version (version opts) = Inr (p_version p, p_custom p)"
    and fl: "find_libs w' (gameDirectory opts) (p_reqLibs p) (p_version p) = Inr libs"
    and pl: "p_libs p = libs @ render (game_jar (gameDirectory opts) (p_version p) (p_custom p))"
    by auto
  from pv have pc: "p_custom p = (if version opts \<noteq> p_version p then Some (version opts) else None)"
    by (auto simp: parse_version_def split: option.splits)
  from pl have "p_libs p = libs @ render (path_join (gameDirectory opts)
               [''versions'',
                (case p_custom p of None \<Rightarrow> p_version p
                 | Some c \<Rightarrow> if includes_str c ''fabric'' then p_version p else c),
                (case p_custom p of None \<Rightarrow> p_version p
                 | Some c \<Rightarrow> if includes_str c ''fabric'' then p_version p else c) @ ''.jar''])"
    by (simp add: game_jar_def split: option.splits)
  with pv pc fl show ?thesis by blast
qed

theorem game_jar_on_classpath_witness:
  "(\<exists>w'. build_plan launch_world forge_options ''fresh''
       = (Inr \<lparr>p_version = ''1.19'', p_custom = Some ''1.19-forge-41'', p_uuid = JStr ''fresh'',
          p_reqLibs = [''lib-1.jar'', ''loader-0.1.jar''], p_mainClass = JStr ''B'',
          p_gameArgs = JArr [JStr ''--username'', JStr ''${auth_player_name}'',
                             JArr [JStr ''--fabric'']],
          p_libs = ''/mc/libraries/a/lib-1.jar;/mc/libraries/f/loader-0.1.jar;/mc/versions/1.19-forge-41/1.19-forge-41.jar''\<rparr>, w'))
   \<and> parse_version ''1.19-forge-41'' = Inr (''1.19'', Some ''1.19-forge-41'')"
proof -
  obtain w' where b: "build_plan launch_world forge_options ''fresh''
       = (Inr \<lparr>p_version = ''1.19'', p_custom = Some ''1.19-forge-41'', p_uuid = JStr ''fresh'',
          p_reqLibs = [''lib-1.jar'', ''loader-0.1.jar''], p_mainClass = JStr ''B'',
          p_gameArgs = JArr [JStr ''--username'', JStr ''${auth_player_name}'',
                             JArr [JStr ''--fabric'']],
          p_libs = ''/mc/libraries/a/lib-1.jar;/mc/libraries/f/loader-0.1.jar;/mc/versions/1.19-forge-41/1.19-forge-41.jar''\<rparr>, w')"
    using build_plan_forge by (cases "build_plan launch_world forge_options ''fresh''") simp
  from game_jar_on_classpath[OF b]
  have "parse_version ''1.19-forge-41'' = Inr (''1.19'', Some ''1.19-forge-41'')"
    by (simp add: forge_options_def)
  with b show ?thesis by blast
qed

text \<open>
  Claim C1 as stated fails in both directions: for the overlay \<^verbatim>\<open>1.19-fabric-0.1\<close>,
  whose id contains \<^verbatim>\<open>fabric\<close>, the classpath ends with the base jar and not with
  the overlay's; for the overlay \<^verbatim>\<open>1.19-forge-41\<close>, whose id does not, it ends with the
  overlay's jar and not with the base jar.
\<close>

theorem fabric_game_jar_counterexample:
  "includes_str ''1.19-fabric-0.1'' ''fabric''
   \<and> version fabric_options = ''1.19-fabric-0.1''
   \<and> map_sum id p_libs (fst (build_plan launch_world fabric_options ''fresh''))
       = Inr ''/mc/libraries/a/lib-1.jar;/mc/libraries/f/loader-0.1.jar;/mc/versions/1.19/1.19.jar''
   \<and> \<not> includes_str ''1.19-forge-41'' ''fabric''
   \<and> version forge_options = ''1.19-forge-41''
   \<and> map_sum id p_libs (fst (build_plan launch_world forge_options ''fresh''))
       = Inr ''/mc/libraries/a/lib-1.jar;/mc/libraries/f/loader-0.1.jar;/mc/versions/1.19-forge-41/1.19-forge-41.jar''"
proof -
  have "version fabric_options = ''1.19-fabric-0.1''" "version forge_options = ''1.19-forge-41''"
    by (simp_all add: fabric_options_def forge_options_def)
  moreover have "includes_str ''1.19-fabric-0.1'' ''fabric''"
    "\<not> includes_str ''1.19-forge-41'' ''fabric''" by simp_all
  ultimately show ?thesis by (simp add: build_plan_fabric build_plan_forge)
qed







lemma split_on_none: "c \<notin> set a \<Longrightarrow> split_on c a = [a]"
  by (induction a) auto

lemma split_on_sep: "c \<notin> set a \<Longrightarrow> split_on c (a @ c # b) = a # split_on c b"
  by (induction a) auto

lemma coord_jar_three:
  assumes "CHR '':'' \<notin> set g" "CHR '':'' \<notin> set a" "CHR '':'' \<notin> set v"
  shows "coord_jar (g @ '':'' @ a @ '':'' @ v) = a @ ''-'' @ v @ ''.jar''"
  using assms by (simp add: coord_jar_def split_on_sep split_on_none)

lemma profile_path: "path_join root [''launcher_profiles.json''] = root @ [''launcher_profiles.json'']"
  by (simp add: path_join_def norm_step_def)

lemma options_path: "path_join root [''options.txt''] = root @ [''options.txt'']"
  by (simp add: path_join_def norm_step_def)

lemma createProfile_frame:
  "listing (createProfile w root) = listing w \<and> folders (createProfile w root) = folders w
   \<and> requests (createProfile w root) = requests w \<and> unzipped (createProfile w root) = unzipped w
   \<and> files (createProfile w root) =
       (if existsSync w (path_join root [''launcher_profiles.json'']) then files w
        else (files w)(path_join root [''launcher_profiles.json'']
               \<mapsto> Json (JObj [(''profiles'', JObj [])])))"
  by (simp add: createProfile_def writeFileSync_def)

lemma remove_options_frame:
  assumes "remove_options w root = Inr w2"
  shows "w2 = w\<lparr>files := (files w)(path_join root [''options.txt''] := None)\<rparr>"
proof (cases "existsSync w (path_join root [''options.txt''])")
  case True
  with assms show ?thesis
    by (auto simp: remove_options_def unlinkSync_def split: if_splits)
next
  case False
  then have "files w (path_join root [''options.txt'']) = None"
    by (simp add: existsSync_def)
  then have "(files w)(path_join root [''options.txt''] := None) = files w" by auto
  with False assms show ?thesis by (simp add: remove_options_def)
qed

lemma build_plan_world:
  assumes "build_plan w opts fresh = (r, w')"
  shows "w' = w \<or> w' = createProfile w (gameDirectory opts)
     \<or> ((\<exists>v c. parse_version (version opts) = Inr (v, Some c))
         \<and> remove_options (createProfile w (gameDirectory opts)) (gameDirectory opts) = Inr w')"
  using assms
  unfolding build_plan_def Let_def bindE_def
  by (auto split: sum.splits option.splits prod.splits)

lemma launch_world_eq: "snd (launch w opts fresh) = snd (build_plan w opts fresh)"
  by (simp add: launch_def split: prod.splits sum.splits)

text \<open>
  Claim C9, as amended. Whatever \<open>launch\<close> returns, it issues no request, extracts
  nothing, creates no directory and changes no file but two: \<^verbatim>\<open>launcher_profiles.json\<close>,
  which is written with an empty profile map when nothing exists at its path, and
  \<^verbatim>\<open>options.txt\<close>, which can only be removed, and only when the version string
  names an overlay.
\<close>

theorem launch_frame:
  assumes "launch w opts fresh = (r, w')"
  shows "folders w' = folders w
     \<and> requests w' = requests w \<and> unzipped w' = unzipped w
     \<and> (\<forall>q. q \<noteq> path_join (gameDirectory opts) [''launcher_profiles.json'']
            \<and> q \<noteq> path_join (gameDirectory opts) [''options.txt'']
            \<longrightarrow> files w' q = files w q)
     \<and> (files w' (path_join (gameDirectory opts) [''launcher_profiles.json''])
           = files w (path_join (gameDirectory opts) [''launcher_profiles.json''])
         \<or> (\<not> existsSync w (path_join (gameDirectory opts) [''launcher_profiles.json''])
            \<and> files w' (path_join (gameDirectory opts) [''launcher_profiles.json''])
                = Some (Json (JObj [(''profiles'', JObj [])]))))
     \<and> (files w' (path_join (gameDirectory opts) [''options.txt''])
           = files w (path_join (gameDirectory opts) [''options.txt''])
         \<or> (files w' (path_join (gameDirectory opts) [''options.txt'']) = None
            \<and> (\<exists>v c. parse_version (version opts) = Inr (v, Some c))))"
proof -
  let ?root = "gameDirectory opts"
  let ?w1 = "createProfile w ?root"
  have ne: "path_join ?root [''launcher_profiles.json''] \<noteq> path_join ?root [''options.txt'']"
    by (simp add: profile_path options_path)
  from assms have "w' = snd (build_plan w opts fresh)"
    using launch_world_eq[of w opts fresh] by simp
  then have "build_plan w opts fresh = (fst (build_plan w opts fresh), w')" by simp
  from build_plan_world[OF this] consider
    (same) "w' = w" | (prof) "w' = ?w1"
    | (opt) "(\<exists>v c. parse_version (version opts) = Inr (v, Some c))"
        "remove_options ?w1 ?root = Inr w'"
    by blast
  then show ?thesis
  proof cases
    case same
    then show ?thesis by simp
  next
    case prof
    then show ?thesis using ne by (simp add: createProfile_frame)
  next
    case opt
    from remove_options_frame[OF opt(2)]
    have "w' = ?w1\<lparr>files := (files ?w1)(path_join ?root [''options.txt''] := None)\<rparr>" .
    then show ?thesis using ne opt(1) by (simp add: createProfile_frame)
  qed
qed

lemma build_plan_plain_world:
  "snd (build_plan launch_world plain_options ''fresh'') = createProfile launch_world [''mc'']"
  unfolding build_plan_def plain_options_def
  by (simp add: parse_plain)
     (simp add: launch_world_def base_plan_example createProfile_frame
        read_json_def readFileSync_def bindE_def path_join_def norm_step_def
        find_libs_def Let_def)

theorem launch_frame_witness:
  "files (snd (launch launch_world fabric_options ''fresh'')) [''mc'', ''versions'', ''1.19'', ''1.19.json'']
     = Some (Json base_doc)
   \<and> folders (snd (launch launch_world fabric_options ''fresh'')) = folders launch_world
   \<and> requests (snd (launch launch_world fabric_options ''fresh'')) = []"
proof -
  have l: "launch launch_world fabric_options ''fresh''
     = (fst (launch launch_world fabric_options ''fresh''),
        snd (launch launch_world fabric_options ''fresh''))" by simp
  have q: "[''mc'', ''versions'', ''1.19'', ''1.19.json'']
        \<noteq> path_join (gameDirectory fabric_options) [''launcher_profiles.json'']
      \<and> [''mc'', ''versions'', ''1.19'', ''1.19.json'']
        \<noteq> path_join (gameDirectory fabric_options) [''options.txt'']"
    by (simp add: profile_path options_path fabric_options_def)
  have f: "files launch_world [''mc'', ''versions'', ''1.19'', ''1.19.json''] = Some (Json base_doc)"
    and r: "requests launch_world = []"
    by (simp_all add: launch_world_def)
  from launch_frame[OF l] q f r show ?thesis by auto
qed

text \<open>
  Claim C9 as stated fails: with no overlay selected and no \<^verbatim>\<open>launcher_profiles.json\<close>
  on the disk, \<open>launch\<close> writes that file.
\<close>

theorem launch_creates_profile_counterexample:
  "version plain_options = ''1.19''
   \<and> parse_version ''1.19'' = Inr (''1.19'', None)
   \<and> files launch_world [''mc'', ''launcher_profiles.json''] = None
   \<and> files (snd (launch launch_world plain_options ''fresh'')) [''mc'', ''launcher_profiles.json'']
       = Some (Json (JObj [(''profiles'', JObj [])]))"
proof -
  have "files (createProfile launch_world [''mc'']) [''mc'', ''launcher_profiles.json'']
       = Some (Json (JObj [(''profiles'', JObj [])]))"
    by (simp add: createProfile_frame profile_path existsSync_def launch_world_def)
  then show ?thesis
    by (simp add: launch_world_eq build_plan_plain_world parse_plain)
       (simp add: plain_options_def launch_world_def)
qed

section \<open>Properties of the downloader\<close>

lemma find_release_absent:
  assumes "\<forall>x \<in> set xs. x \<noteq> JNull \<and> x \<noteq> JUndefined
      \<and> \<not> (getp x ''type'' = Inr (JStr ''release'') \<and> getp x ''id'' = Inr (JStr v))"
  shows "find_release xs v = Inr JUndefined"
  using assms
proof (induction xs)
  case Nil
  then show ?case by simp
next
  case (Cons x xs)
  then have nn: "x \<noteq> JNull" "x \<noteq> JUndefined" by auto
  then obtain t i where ti: "getp x ''type'' = Inr t" "getp x ''id'' = Inr i"
    by (cases x) auto
  with Cons show ?case by auto
qed

lemma resolve_absent:
  assumes "getp ver ''versions'' = Inr (JArr xs)"
    and "\<forall>x \<in> set xs. x \<noteq> JNull \<and> x \<noteq> JUndefined
      \<and> \<not> (getp x ''type'' = Inr (JStr ''release'') \<and> getp x ''id'' = Inr (JStr v))"
  shows "resolveVersionUrl ver v = Inl TypeError"
  using assms(1) find_release_absent[OF assms(2)]
  by (simp add: resolveVersionUrl_def bindE_def as_array_def)

lemma find_release_present:
  assumes "\<forall>x \<in> set pre. x \<noteq> JNull \<and> x \<noteq> JUndefined
      \<and> \<not> (getp x ''type'' = Inr (JStr ''release'') \<and> getp x ''id'' = Inr (JStr v))"
    and "getp x ''type'' = Inr (JStr ''release'')" and "getp x ''id'' = Inr (JStr v)"
  shows "find_release (pre @ x # post) v = Inr x"
  using assms
proof (induction pre)
  case Nil
  then show ?case by simp
next
  case (Cons y pre)
  then have nn: "y \<noteq> JNull" "y \<noteq> JUndefined" by auto
  then obtain t i where ti: "getp y ''type'' = Inr t" "getp y ''id'' = Inr i"
    by (cases y) auto
  with Cons show ?case by auto
qed

lemma resolve_present:
  assumes "getp ver ''versions'' = Inr (JArr (pre @ x # post))"
    and "\<forall>x \<in> set pre. x \<noteq> JNull \<and> x \<noteq> JUndefined
      \<and> \<not> (getp x ''type'' = Inr (JStr ''release'') \<and> getp x ''id'' = Inr (JStr v))"
    and "getp x ''type'' = Inr (JStr ''release'')" and "getp x ''id'' = Inr (JStr v)"
    and "getp x ''url'' = Inr u" and "truthy u"
  shows "resolveVersionUrl ver v = Inr u"
  using assms(1,5,6) find_release_present[OF assms(2,3,4)]
  by (simp add: resolveVersionUrl_def bindE_def as_array_def)

text \<open>
  Claim C3. For an id with a release entry the lookup yields the entry's URL. For an id
  with no release entry (absent, or present only as a snapshot) \<^verbatim>\<open>find\<close> returns
  \<^verbatim>\<open>undefined\<close> and reading \<^verbatim>\<open>.url\<close> from it throws a TypeError, before the test
  that would throw \<^verbatim>\<open>"La version no existe."\<close> is reached: the code does not report
  the missing version as the claim says, and the promise of \<^verbatim>\<open>downloadVersion\<close> never
  settles.
\<close>

theorem missing_version_throws_type_error:
  "resolveVersionUrl manifest_example ''1.19'' = Inr (JStr ''https://m/1.19.json'')
   \<and> resolveVersionUrl manifest_example ''9.9.9'' = Inl TypeError
   \<and> resolveVersionUrl manifest_example ''22w01a'' = Inl TypeError
   \<and> resolveVersionUrl manifest_example ''9.9.9'' \<noteq> Inl VersionNoExiste
   \<and> fst (downloadVersion [url_meta \<mapsto> Json manifest_example] empty_world
          \<lparr>d_root = [''mc''], d_version = ''9.9.9'', d_file = JUndefined\<rparr>) = Pending TypeError"
proof -
  have r: "resolveVersionUrl manifest_example ''1.19'' = Inr (JStr ''https://m/1.19.json'')"
    "resolveVersionUrl manifest_example ''9.9.9'' = Inl TypeError"
    "resolveVersionUrl manifest_example ''22w01a'' = Inl TypeError"
    by (simp_all add: resolveVersionUrl_def manifest_example_def bindE_def as_array_def)
  have "fst (downloadVersion [url_meta \<mapsto> Json manifest_example] empty_world
          \<lparr>d_root = [''mc''], d_version = ''9.9.9'', d_file = JUndefined\<rparr>) = Pending TypeError"
    by (simp add: downloadVersion_def Let_def ensure_dir_recursive_def existsSync_def
        mkdir_recursive_def empty_world_def down_def writeFileSync_def path_join_def
        norm_step_def read_json_def readFileSync_def bindE_def r)
  with r show ?thesis by simp
qed

lemma path_join_append: "path_join (path_join p a) b = path_join p (a @ b)"
  by (simp add: path_join_def)



lemma asset_loop_own_key_throws:
  assumes "map_of kvs ''hasOwnProperty'' \<noteq> None"
  shows "asset_loop remote w root (JObj kvs) (for_in_values (JObj kvs)) = (Inl TypeError, w)"
proof -
  from assms have "kvs \<noteq> []" by auto
  then obtain kv rest where "kvs = kv # rest" by (cases kvs) auto
  then have "for_in_values (JObj kvs) = snd kv # map snd rest"
    by (simp add: for_in_values_def)
  then show ?thesis using assms by (auto simp add: hasOwnProperty_call_def)
qed








text \<open>
  Claim C7, as amended. For a library whose classifiers are an object, the bundle is the
  classifier \<^verbatim>\<open>natives-windows\<close> when it is there, and \<^verbatim>\<open>natives-windows-64\<close>
  otherwise. When the selected bundle has a URL the server answers with an archive and a
  path, it is downloaded to \<^verbatim>\<open>natives/<basename of the path>\<close>; for version 1.8 with
  a URL containing \<^verbatim>\<open>nightly\<close> the archive is deleted without being extracted, in
  every other case it is extracted into \<^verbatim>\<open>natives/<version>\<close> and then deleted.
\<close>

theorem natives_resolution:
  assumes "getp element ''downloads'' = Inr ds"
    and "getp ds ''classifiers'' = Inr (JObj cls)"
    and "getp (JObj cls) ''natives-windows'' = Inr nw"
    and "getp (JObj cls) ''natives-windows-64'' = Inr nw64"
    and "natives = (if truthy nw then nw else nw64)"
    and "truthy natives"
    and "getp natives ''url'' = Inr (JStr u)"
    and "getp natives ''path'' = Inr (JStr s)"
    and "remote u = Some Archive"
    and "archive = path_join root [''natives'', basename s]"
  shows "select_natives (JObj cls) = Inr natives
     \<and> (\<exists>w'. native_step remote w root v element = (Inr (), w')
          \<and> requests w' = requests w @ [(u, archive)]
          \<and> files w' = (files w)(archive := None)
          \<and> unzipped w' =
               (if v = ''1.8'' \<and> includes_str u ''nightly'' then unzipped w
                else unzipped w @ [(archive, path_join root [''natives'', v])]))"
proof -
  have sel: "select_natives (JObj cls) = Inr natives"
    using assms(3,4,5) by (simp add: select_natives_def bindE_def)
  have a: "path_join (path_join root [''natives'']) [basename s] = archive"
    by (simp add: path_join_append assms(10))
  have d: "down remote w (JStr u) (path_join root [''natives'']) (basename s)
      = (Inr (), w\<lparr>requests := requests w @ [(u, archive)],
                    files := (files w)(archive \<mapsto> Archive)\<rparr>)"
    by (simp add: down_def assms(9) a writeFileSync_def Let_def)
  have "\<exists>w'. native_step remote w root v element = (Inr (), w')
          \<and> requests w' = requests w @ [(u, archive)]
          \<and> files w' = (files w)(archive := None)
          \<and> unzipped w' =
               (if v = ''1.8'' \<and> includes_str u ''nightly'' then unzipped w
                else unzipped w @ [(archive, path_join root [''natives'', v])])"
    using assms(1,2,6,7,8) sel
    by (simp add: native_step_def native_args_def bindE_def d js_includes_def unlinkSync_def
        extractAllTo_def assms(10)[symmetric])
  with sel show ?thesis by blast
qed

theorem natives_resolution_witness:
  "\<exists>w'. native_step [''https://l/w.jar'' \<mapsto> Archive] empty_world [''mc''] ''1.19'' natives_element
        = (Inr (), w')
     \<and> requests w' = [(''https://l/w.jar'', [''mc'', ''natives'', ''lwjgl-natives-windows.jar''])]
     \<and> files w' [''mc'', ''natives'', ''lwjgl-natives-windows.jar''] = None
     \<and> unzipped w' = [([''mc'', ''natives'', ''lwjgl-natives-windows.jar''],
                        [''mc'', ''natives'', ''1.19''])]"
proof -
  let ?cls = "[(''natives-windows'', JObj [(''path'', JStr ''org/lwjgl/lwjgl-natives-windows.jar''),
                                    (''url'', JStr ''https://l/w.jar'')]),
         (''natives-windows-64'', JObj [(''path'', JStr ''org/lwjgl/lwjgl-natives-windows-64.jar''),
                                    (''url'', JStr ''https://l/w64.jar'')])]"
  let ?nw = "JObj [(''path'', JStr ''org/lwjgl/lwjgl-natives-windows.jar''),
                   (''url'', JStr ''https://l/w.jar'')]"
  let ?nw64 = "JObj [(''path'', JStr ''org/lwjgl/lwjgl-natives-windows-64.jar''),
                     (''url'', JStr ''https://l/w64.jar'')]"
  have 1: "getp natives_element ''downloads'' = Inr (JObj [(''classifiers'', JObj ?cls)])"
    by (simp add: natives_element_def)
  have 2: "getp (JObj [(''classifiers'', JObj ?cls)]) ''classifiers'' = Inr (JObj ?cls)" by simp
  have 3: "getp (JObj ?cls) ''natives-windows'' = Inr ?nw" by simp
  have 4: "getp (JObj ?cls) ''natives-windows-64'' = Inr ?nw64" by simp
  have 5: "?nw = (if truthy ?nw then ?nw else ?nw64)" by simp
  have 6: "truthy ?nw" by simp
  have 7: "getp ?nw ''url'' = Inr (JStr ''https://l/w.jar'')" by simp
  have 8: "getp ?nw ''path'' = Inr (JStr ''org/lwjgl/lwjgl-natives-windows.jar'')" by simp
  have 9: "[''https://l/w.jar'' \<mapsto> Archive] ''https://l/w.jar'' = Some Archive" by simp
  have 10: "[''mc'', ''natives'', ''lwjgl-natives-windows.jar'']
      = path_join [''mc''] [''natives'', basename ''org/lwjgl/lwjgl-natives-windows.jar'']"
    by (simp add: basename_def path_join_def norm_step_def)
  have 11: "path_join [''mc''] [''natives'', ''1.19''] = [''mc'', ''natives'', ''1.19'']"
    by (simp add: path_join_def norm_step_def)
  from natives_resolution[where remote = "[''https://l/w.jar'' \<mapsto> Archive]"
      and u = "''https://l/w.jar''" and w = empty_world and v = "''1.19''",
      OF 1 2 3 4 5 6 7 8 9 10]
  obtain w' where s: "native_step [''https://l/w.jar'' \<mapsto> Archive] empty_world [''mc''] ''1.19''
        natives_element = (Inr (), w')"
    and r: "requests w' = requests empty_world
        @ [(''https://l/w.jar'', [''mc'', ''natives'', ''lwjgl-natives-windows.jar''])]"
    and f: "files w' = (files empty_world)([''mc'', ''natives'', ''lwjgl-natives-windows.jar''] := None)"
    and z: "unzipped w' = unzipped empty_world
        @ [([''mc'', ''natives'', ''lwjgl-natives-windows.jar''], [''mc'', ''natives'', ''1.19''])]"
    by (auto simp: 11)
  from r have r': "requests w' = [(''https://l/w.jar'', [''mc'', ''natives'', ''lwjgl-natives-windows.jar''])]"
    by (simp add: empty_world_def)
  from f have f': "files w' [''mc'', ''natives'', ''lwjgl-natives-windows.jar''] = None" by simp
  from z have z': "unzipped w' = [([''mc'', ''natives'', ''lwjgl-natives-windows.jar''],
                        [''mc'', ''natives'', ''1.19''])]"
    by (simp add: empty_world_def)
  show ?thesis using s r' f' z' by blast
qed

text \<open>
  Claim C7 as stated fails: for a library with both classifiers the platform-only
  classifier \<^verbatim>\<open>natives-windows\<close> is selected and downloaded, not the classifier
  \<^verbatim>\<open>natives-windows-64\<close> with the architecture.
\<close>

theorem natives_order_counterexample:
  "bindE (getp natives_element ''downloads'') (\<lambda>ds.
     bindE (getp ds ''classifiers'') select_natives)
     = Inr (JObj [(''path'', JStr ''org/lwjgl/lwjgl-natives-windows.jar''),
                  (''url'', JStr ''https://l/w.jar'')])
   \<and> requests (snd (native_step [''https://l/w.jar'' \<mapsto> Archive, ''https://l/w64.jar'' \<mapsto> Archive]
                 empty_world [''mc''] ''1.19'' natives_element))
     = [(''https://l/w.jar'', [''mc'', ''natives'', ''lwjgl-natives-windows.jar''])]"
  by (simp add: natives_element_def bindE_def select_natives_def native_step_def native_args_def down_def
      basename_def path_join_def norm_step_def writeFileSync_def js_includes_def
      extractAllTo_def unlinkSync_def empty_world_def Let_def)

section \<open>The transfers of a run do not depend on the disk\<close>

lemma same_new_append:
  assumes "same_new a b w w'" "requests w1 = requests w @ x" "requests w1' = requests w' @ x"
  shows "same_new a b w1 w1'"
  using assms by (auto simp: same_new_def)

lemma same_new_same:
  assumes "same_new a b w w'" "requests w1 = requests w" "requests w1' = requests w'"
  shows "same_new a b w1 w1'"
  using assms by (auto simp: same_new_def)

lemma ensure_dir_requests [simp]:
  "requests (ensure_dir w p) = requests w" "files (ensure_dir w p) = files w"
  "unzipped (ensure_dir w p) = unzipped w"
  by (simp_all add: ensure_dir_def mkdirSync_def)

lemma ensure_dir_recursive_requests [simp]:
  "requests (ensure_dir_recursive w p) = requests w" "files (ensure_dir_recursive w p) = files w"
  "unzipped (ensure_dir_recursive w p) = unzipped w"
  by (simp_all add: ensure_dir_recursive_def mkdir_recursive_def)

lemma down_rel:
  assumes "same_new a b w w'"
  shows "fst (down remote w url dir name) = fst (down remote w' url dir name)
     \<and> same_new a b (snd (down remote w url dir name)) (snd (down remote w' url dir name))
     \<and> (fst (down remote w url dir name) = Inr () \<longrightarrow>
          (\<exists>u. url = JStr u \<and> remote u \<noteq> None
             \<and> files (snd (down remote w url dir name)) (path_join dir [name]) = remote u
             \<and> files (snd (down remote w' url dir name)) (path_join dir [name]) = remote u))"
proof (cases url)
  case (JStr u)
  show ?thesis
  proof (cases "remote u")
    case None
    have "same_new a b (w\<lparr>requests := requests w @ [(u, path_join dir [name])]\<rparr>)
        (w'\<lparr>requests := requests w' @ [(u, path_join dir [name])]\<rparr>)"
      by (rule same_new_append[OF assms]) simp_all
    then show ?thesis using JStr None by (simp add: down_def)
  next
    case (Some c)
    have "same_new a b
        (writeFileSync (w\<lparr>requests := requests w @ [(u, path_join dir [name])]\<rparr>) (path_join dir [name]) c)
        (writeFileSync (w'\<lparr>requests := requests w' @ [(u, path_join dir [name])]\<rparr>) (path_join dir [name]) c)"
      by (rule same_new_append[OF assms]) (simp_all add: writeFileSync_def)
    then show ?thesis using JStr Some by (simp add: down_def writeFileSync_def)
  qed
qed (use assms in \<open>simp_all add: down_def\<close>)

lemma asset_step_rel:
  assumes "same_new a b w w'"
  shows "(case asset_step remote w root f of
            Inl e \<Rightarrow> asset_step remote w' root f = Inl e
          | Inr w1 \<Rightarrow> (\<exists>w1'. asset_step remote w' root f = Inr w1' \<and> same_new a b w1 w1'))"
proof (cases "getp f ''hash''")
  case (Inl e)
  then show ?thesis by (simp add: asset_step_def bindE_def)
next
  case (Inr fh)
  show ?thesis
  proof (cases fh)
    case (JStr h)
    let ?d = "path_join root [''assets'', ''objects'', take 2 h]"
    have "same_new a b (ensure_dir w ?d) (ensure_dir w' ?d)"
      by (rule same_new_same[OF assms]) simp_all
    from down_rel[OF this] show ?thesis
      using Inr JStr by (simp add: asset_step_def bindE_def Let_def)
  qed (use Inr in \<open>simp_all add: asset_step_def bindE_def\<close>)
qed

lemma asset_loop_rel:
  assumes "same_new a b w w'"
  shows "fst (asset_loop remote w root objects fs) = fst (asset_loop remote w' root objects fs)
     \<and> same_new a b (snd (asset_loop remote w root objects fs))
          (snd (asset_loop remote w' root objects fs))"
  using assms
proof (induction fs arbitrary: w w')
  case Nil
  then show ?case by simp
next
  case (Cons f fs)
  show ?case
  proof (cases "hasOwnProperty_call objects")
    case (Inl e)
    then show ?thesis using Cons.prems by simp
  next
    case own: (Inr own)
    show ?thesis
    proof (cases own)
      case False
      with own Cons.IH[OF Cons.prems] show ?thesis by simp
    next
      case True
      show ?thesis
      proof (cases "asset_step remote w root f")
        case (Inl e)
        with asset_step_rel[OF Cons.prems, of remote root f] Cons.prems own True
        show ?thesis by simp
      next
        case (Inr w1)
        with asset_step_rel[OF Cons.prems, of remote root f] obtain w1' where
          "asset_step remote w' root f = Inr w1'" "same_new a b w1 w1'" by auto
        with Inr Cons.IH[of w1 w1'] own True show ?thesis by simp
      qed
    qed
  qed
qed

lemma for_each_async_rel:
  assumes "\<And>w w' x. same_new a b w w' \<Longrightarrow> same_new a b (snd (body w x)) (snd (body w' x))"
    and "same_new a b w w'"
  shows "same_new a b (for_each_async body w xs) (for_each_async body w' xs)"
  using assms(2)
proof (induction xs arbitrary: w w')
  case Nil
  then show ?case by simp
next
  case (Cons x xs)
  from assms(1)[OF Cons.prems] have "same_new a b (snd (body w x)) (snd (body w' x))" .
  from Cons.IH[OF this] show ?case by simp
qed

lemma library_step_rel:
  assumes "same_new a b w w'"
  shows "same_new a b (snd (library_step remote w root el)) (snd (library_step remote w' root el))"
proof -
  have e: "\<And>p. same_new a b (ensure_dir_recursive w p) (ensure_dir_recursive w' p)"
    by (rule same_new_same[OF assms]) simp_all
  show ?thesis
    using assms e down_rel[OF e]
    by (auto simp: library_step_def bindE_def Let_def split: sum.splits jsval.splits)
qed

lemma native_step_rel:
  assumes "same_new a b w w'"
  shows "same_new a b (snd (native_step remote w root v el)) (snd (native_step remote w' root v el))"
proof (cases "bindE (getp el ''downloads'') (\<lambda>ds. bindE (getp ds ''classifiers'') select_natives)")
  case (Inl e)
  then show ?thesis using assms by (simp add: native_step_def)
next
  case (Inr natives)
  show ?thesis
  proof (cases "truthy natives")
    case False
    then show ?thesis using assms Inr by (simp add: native_step_def)
  next
    case True
    show ?thesis
    proof (cases "native_args natives")
      case (Inl e)
      then show ?thesis using assms Inr True by (simp add: native_step_def)
    next
      case (Inr un)
      obtain u name where un: "un = (u, name)" by (cases un)
      let ?dir = "path_join root [''natives'']"
      let ?arch = "path_join root [''natives'', name]"
      have pa: "path_join ?dir [name] = ?arch" by (simp add: path_join_append)
      note d = down_rel[OF assms, of remote u ?dir name]
      obtain r w1 where dw: "down remote w u ?dir name = (r, w1)" by (cases "down remote w u ?dir name")
      obtain r' w1' where dw': "down remote w' u ?dir name = (r', w1')"
        by (cases "down remote w' u ?dir name")
      from d dw dw' have rr: "r' = r" and sn: "same_new a b w1 w1'" by simp_all
      show ?thesis
      proof (cases r)
        case (Inl e)
        then show ?thesis
          using \<open>bindE (getp el ''downloads'') _ = Inr natives\<close> True Inr un dw dw' rr sn
          by (simp add: native_step_def)
      next
        case ok: (Inr x)
        with d dw dw' pa obtain u' c where u': "u = JStr u'" "remote u' = Some c"
          "files w1 ?arch = Some c" "files w1' ?arch = Some c" by auto
        show ?thesis
          using \<open>bindE (getp el ''downloads'') _ = Inr natives\<close> True Inr un dw dw' rr sn ok u'
          by (simp add: native_step_def js_includes_def unlinkSync_def extractAllTo_def
              same_new_def split: fcontent.splits)
      qed
    qed
  qed
qed

lemma downloadLibraries_rel:
  assumes "same_new a b w w'"
  shows "fst (downloadLibraries remote w d) = fst (downloadLibraries remote w' d)
     \<and> same_new a b (snd (downloadLibraries remote w d)) (snd (downloadLibraries remote w' d))"
proof -
  let ?p = "path_join (d_root d) [''libraries'']"
  have e: "same_new a b (ensure_dir w ?p) (ensure_dir w' ?p)"
    by (rule same_new_same[OF assms]) simp_all
  have "\<And>els. same_new a b
      (for_each_async (\<lambda>w' el. library_step remote w' (d_root d) el) (ensure_dir w ?p) els)
      (for_each_async (\<lambda>w' el. library_step remote w' (d_root d) el) (ensure_dir w' ?p) els)"
    by (rule for_each_async_rel[OF _ e]) (rule library_step_rel)
  with e show ?thesis
    by (simp add: downloadLibraries_def Let_def split: sum.splits)
qed

lemma downloadNatives_rel:
  assumes "same_new a b w w'"
  shows "fst (downloadNatives remote w d) = fst (downloadNatives remote w' d)
     \<and> same_new a b (snd (downloadNatives remote w d)) (snd (downloadNatives remote w' d))"
proof -
  let ?p = "path_join (d_root d) [''natives'']"
  have e: "same_new a b (ensure_dir w ?p) (ensure_dir w' ?p)"
    by (rule same_new_same[OF assms]) simp_all
  have "\<And>els. same_new a b
      (for_each_async (\<lambda>w' el. native_step remote w' (d_root d) (d_version d) el) (ensure_dir w ?p) els)
      (for_each_async (\<lambda>w' el. native_step remote w' (d_root d) (d_version d) el) (ensure_dir w' ?p) els)"
    by (rule for_each_async_rel[OF _ e]) (rule native_step_rel)
  with e show ?thesis
    by (simp add: downloadNatives_def Let_def split: sum.splits)
qed

lemma read_json_cong: "files w p = files w' p \<Longrightarrow> read_json w p = read_json w' p"
  by (simp add: read_json_def readFileSync_def)

lemma down_files:
  assumes "fst (down remote w url dir name) = Inr ()"
  shows "\<exists>u c. url = JStr u \<and> remote u = Some c
     \<and> files (snd (down remote w url dir name)) = (files w)(path_join dir [name] \<mapsto> c)"
  using assms
  by (cases url) (auto simp: down_def writeFileSync_def Let_def split: option.splits)

lemma down_exists:
  assumes "existsSync w p"
  shows "existsSync (snd (down remote w url dir name)) p"
  using assms
  by (cases url) (auto simp: down_def writeFileSync_def existsSync_def Let_def split: option.splits)

lemma cache_paths:
  "path_join root [''cache''] = root @ [''cache'']"
  "path_join root [''cache'', ''json''] = root @ [''cache'', ''json'']"
  by (simp_all add: path_join_def norm_step_def)

lemma folders_mkdir:
  "folders (mkdir_recursive w q) = folders w \<union> set (map (\<lambda>n. take n q) [0..<Suc (length q)])"
  unfolding mkdir_recursive_def by simp

lemma prefix_in_mkdir:
  "p @ [x] \<in> folders (mkdir_recursive w (p @ [x, y]))"
proof -
  have "take (Suc (length p)) (p @ [x, y]) = p @ [x]" by simp
  then have "p @ [x] \<in> (\<lambda>n. take n (p @ [x, y])) ` {0..<Suc (length (p @ [x, y]))}"
    by (intro image_eqI[where x = "Suc (length p)"]) simp_all
  then have "p @ [x] \<in> set (map (\<lambda>n. take n (p @ [x, y])) [0..<Suc (length (p @ [x, y]))])"
    by (simp only: set_map set_upt)
  then show ?thesis
    unfolding folders_mkdir by (rule UnI2)
qed

lemma cache_after_mkdir:
  assumes "cache_ok root w"
  shows "existsSync (ensure_dir_recursive w (path_join root [''cache'', ''json'']))
           (path_join root [''cache''])"
proof (cases "existsSync w (path_join root [''cache'', ''json''])")
  case True
  with assms show ?thesis by (simp add: cache_ok_def ensure_dir_recursive_def)
next
  case False
  then have "ensure_dir_recursive w (path_join root [''cache'', ''json''])
      = mkdir_recursive w (root @ [''cache'', ''json''])"
    by (simp add: ensure_dir_recursive_def cache_paths)
  then show ?thesis
    using prefix_in_mkdir[of root "''cache''" w "''json''"]
    by (simp only: existsSync_def cache_paths simp_thms)
qed

lemma downloadAssets_rel:
  assumes "same_new a b w w'"
  shows "fst (downloadAssets remote w d) = fst (downloadAssets remote w' d)
     \<and> same_new a b (snd (downloadAssets remote w d)) (snd (downloadAssets remote w' d))"
proof -
  let ?root = "d_root d" and ?v = "d_version d"
  let ?ix = "path_join ?root [''assets'', ''indexes'']"
  let ?cj = "path_join ?root [''cache'', ''json'']"
  let ?w1 = "ensure_dir_recursive w ?ix" and ?w1' = "ensure_dir_recursive w' ?ix"
  have e: "same_new a b ?w1 ?w1'" by (rule same_new_same[OF assms]) simp_all
  show ?thesis
  proof (cases "bindE (getp (d_file d) ''assetIndex'') (\<lambda>a. getp a ''url'')")
    case (Inl err)
    then show ?thesis using e by (simp add: downloadAssets_def Let_def)
  next
    case (Inr url)
    obtain r2 w2 where d1: "down remote ?w1 url ?ix (?v @ ''.json'') = (r2, w2)"
      by (cases "down remote ?w1 url ?ix (?v @ ''.json'')")
    obtain r2' w2' where d1': "down remote ?w1' url ?ix (?v @ ''.json'') = (r2', w2')"
      by (cases "down remote ?w1' url ?ix (?v @ ''.json'')")
    from down_rel[OF e, of remote url ?ix "?v @ ''.json''"] d1 d1'
    have r2: "r2' = r2" and s2: "same_new a b w2 w2'" by simp_all
    show ?thesis
    proof (cases r2)
      case (Inl err)
      then show ?thesis using Inr d1 d1' r2 s2 by (simp add: downloadAssets_def Let_def)
    next
      case ok2: (Inr x2)
      obtain r3 w3 where d2: "down remote w2 url ?cj (?v @ ''.json'') = (r3, w3)"
        by (cases "down remote w2 url ?cj (?v @ ''.json'')")
      obtain r3' w3' where d2': "down remote w2' url ?cj (?v @ ''.json'') = (r3', w3')"
        by (cases "down remote w2' url ?cj (?v @ ''.json'')")
      from down_rel[OF s2, of remote url ?cj "?v @ ''.json''"] d2 d2'
      have r3: "r3' = r3" and s3: "same_new a b w3 w3'" by simp_all
      show ?thesis
      proof (cases r3)
        case (Inl err)
        then show ?thesis
          using Inr d1 d1' r2 ok2 d2 d2' r3 s3 by (simp add: downloadAssets_def Let_def)
      next
        case ok3: (Inr x3)
        let ?p = "path_join ?root [''assets'', ''indexes'', ?v @ ''.json'']"
        have pp: "path_join ?ix [?v @ ''.json''] = ?p" by (simp add: path_join_append)
        from down_files[of remote ?w1 url ?ix "?v @ ''.json''"] d1 ok2 pp
        obtain u c where u: "url = JStr u" "remote u = Some c" "files w2 ?p = Some c" by auto
        from down_files[of remote ?w1' url ?ix "?v @ ''.json''"] d1' r2 ok2 pp u
        have f2': "files w2' ?p = Some c" by auto
        from down_files[of remote w2 url ?cj "?v @ ''.json''"] d2 ok3 u
        have "files w3 = (files w2)(path_join ?cj [?v @ ''.json''] \<mapsto> c)" by auto
        with u have f3: "files w3 ?p = Some c" by simp
        from down_files[of remote w2' url ?cj "?v @ ''.json''"] d2' r3 ok3 u
        have "files w3' = (files w2')(path_join ?cj [?v @ ''.json''] \<mapsto> c)" by auto
        with f2' have f3': "files w3' ?p = Some c" by simp
        from f3 f3' have rj: "read_json w3' ?p = read_json w3 ?p"
          by (simp add: read_json_def readFileSync_def)
        let ?w4 = "ensure_dir w3 (path_join ?root [''assets'', ''objects''])"
        let ?w4' = "ensure_dir w3' (path_join ?root [''assets'', ''objects''])"
        have e4: "same_new a b ?w4 ?w4'"
          by (rule same_new_same[OF s3]) simp_all
        show ?thesis
        proof (cases "read_json w3 ?p")
          case (Inl err)
          then show ?thesis
            using Inr d1 d1' r2 ok2 d2 d2' r3 ok3 rj s3
            by (simp add: downloadAssets_def Let_def)
        next
          case doc: (Inr assetFile)
          show ?thesis
          proof (cases "getp assetFile ''objects''")
            case (Inl err)
            then show ?thesis
              using Inr d1 d1' r2 ok2 d2 d2' r3 ok3 rj doc e4
              by (simp add: downloadAssets_def Let_def)
          next
            case objs: (Inr objects)
            obtain r5 w5 where l: "asset_loop remote ?w4 ?root objects (for_in_values objects) = (r5, w5)"
              by (cases "asset_loop remote ?w4 ?root objects (for_in_values objects)")
            obtain r5' w5' where l': "asset_loop remote ?w4' ?root objects (for_in_values objects) = (r5', w5')"
              by (cases "asset_loop remote ?w4' ?root objects (for_in_values objects)")
            from asset_loop_rel[OF e4, of remote ?root objects "for_in_values objects"] l l'
            have r5: "r5' = r5" and s5: "same_new a b w5 w5'" by simp_all
            show ?thesis
              using Inr d1 d1' r2 ok2 d2 d2' r3 ok3 rj doc objs l l' r5 s5
              by (cases r5) (simp_all add: downloadAssets_def Let_def)
          qed
        qed
      qed
    qed
  qed
qed

lemma downloadClient_rel:
  assumes "same_new a b w w'"
    and "files w (path_join (d_root d) [''versions'', d_version d, d_version d @ ''.json''])
         = files w' (path_join (d_root d) [''versions'', d_version d, d_version d @ ''.json''])"
  shows "fst (downloadClient remote w d) = fst (downloadClient remote w' d)
     \<and> same_new a b (fst (snd (downloadClient remote w d))) (fst (snd (downloadClient remote w' d)))
     \<and> snd (snd (downloadClient remote w d)) = snd (snd (downloadClient remote w' d))"
proof -
  let ?p = "path_join (d_root d) [''versions'', d_version d, d_version d @ ''.json'']"
  let ?dir = "path_join (d_root d) [''versions'', d_version d]"
  have rj: "read_json w' ?p = read_json w ?p" using assms(2) by (simp add: read_json_def readFileSync_def)
  show ?thesis
  proof (cases "read_json w ?p")
    case (Inl err)
    then show ?thesis using rj assms(1) by (simp add: downloadClient_def Let_def)
  next
    case doc: (Inr doc)
    show ?thesis
    proof (cases "bindE (getp doc ''downloads'') (\<lambda>ds. bindE (getp ds ''client'') (\<lambda>c. getp c ''url''))")
      case (Inl err)
      then show ?thesis using rj doc assms(1) by (simp add: downloadClient_def Let_def)
    next
      case cl: (Inr client)
      have e: "same_new a b (ensure_dir w ?dir) (ensure_dir w' ?dir)"
        by (rule same_new_same[OF assms(1)]) simp_all
      obtain r2 w2 where d1: "down remote (ensure_dir w ?dir) client ?dir (d_version d @ ''.jar'') = (r2, w2)"
        by (cases "down remote (ensure_dir w ?dir) client ?dir (d_version d @ ''.jar'')")
      obtain r2' w2' where d1': "down remote (ensure_dir w' ?dir) client ?dir (d_version d @ ''.jar'') = (r2', w2')"
        by (cases "down remote (ensure_dir w' ?dir) client ?dir (d_version d @ ''.jar'')")
      from down_rel[OF e, of remote client ?dir "d_version d @ ''.jar''"] d1 d1'
      have r2: "r2' = r2" and s2: "same_new a b w2 w2'" by simp_all
      show ?thesis
        using rj doc cl d1 d1' r2 s2
        by (cases r2) (simp_all add: downloadClient_def Let_def)
    qed
  qed
qed

lemma downloadVersion_rel:
  assumes "same_new a b w w'" and "cache_ok (d_root d) w" and "cache_ok (d_root d) w'"
  shows "fst (downloadVersion remote w d) = fst (downloadVersion remote w' d)
     \<and> same_new a b (snd (downloadVersion remote w d)) (snd (downloadVersion remote w' d))
     \<and> (fst (downloadVersion remote w d) = Resolved \<longrightarrow>
          files (snd (downloadVersion remote w d))
            (path_join (d_root d) [''versions'', d_version d, d_version d @ ''.json''])
          = files (snd (downloadVersion remote w' d))
            (path_join (d_root d) [''versions'', d_version d, d_version d @ ''.json'']))"
proof -
  let ?root = "d_root d" and ?v = "d_version d"
  let ?cj = "path_join ?root [''cache'', ''json'']"
  let ?c = "path_join ?root [''cache'']"
  let ?m = "path_join ?root [''cache'', ''json'', ''version_manifest.json'']"
  let ?vd = "path_join ?root [''versions'', ?v]"
  let ?p = "path_join ?root [''versions'', ?v, ?v @ ''.json'']"
  let ?w1 = "ensure_dir_recursive w ?cj" and ?w1' = "ensure_dir_recursive w' ?cj"
  have e: "same_new a b ?w1 ?w1'" by (rule same_new_same[OF assms(1)]) simp_all
  obtain r2 w2 where d1: "down remote ?w1 (JStr url_meta) ?cj ''version_manifest.json'' = (r2, w2)"
    by (cases "down remote ?w1 (JStr url_meta) ?cj ''version_manifest.json''")
  obtain r2' w2' where d1': "down remote ?w1' (JStr url_meta) ?cj ''version_manifest.json'' = (r2', w2')"
    by (cases "down remote ?w1' (JStr url_meta) ?cj ''version_manifest.json''")
  note dr = down_rel[OF e, of remote "JStr url_meta" ?cj "''version_manifest.json''"]
  from dr d1 d1' have r2: "r2' = r2" and s2: "same_new a b w2 w2'" by simp_all
  show ?thesis
  proof (cases r2)
    case (Inl err)
    then show ?thesis using d1 d1' r2 s2 by (simp add: downloadVersion_def Let_def)
  next
    case ok: (Inr x)
    have pm: "path_join ?cj [''version_manifest.json''] = ?m" by (simp add: path_join_append)
    from dr d1 d1' ok pm have fm: "files w2' ?m = files w2 ?m" by auto
    then have rj: "read_json w2' ?m = read_json w2 ?m"
      by (simp add: read_json_def readFileSync_def)
    from down_exists[OF cache_after_mkdir[OF assms(2)], of remote "JStr url_meta" ?cj
        "''version_manifest.json''"] d1
    have ex: "existsSync w2 ?c" by simp
    from down_exists[OF cache_after_mkdir[OF assms(3)], of remote "JStr url_meta" ?cj
        "''version_manifest.json''"] d1'
    have ex': "existsSync w2' ?c" by simp
    show ?thesis
    proof (cases "bindE (read_json w2 ?m) (\<lambda>ver. resolveVersionUrl ver ?v)")
      case (Inl err)
      then show ?thesis
        using d1 d1' r2 s2 ok rj ex ex' by (simp add: downloadVersion_def Let_def)
    next
      case url: (Inr verJson)
      let ?w3 = "ensure_dir_recursive w2 ?vd" and ?w3' = "ensure_dir_recursive w2' ?vd"
      have e3: "same_new a b ?w3 ?w3'" by (rule same_new_same[OF s2]) simp_all
      obtain r4 w4 where d2: "down remote ?w3 verJson ?vd (?v @ ''.json'') = (r4, w4)"
        by (cases "down remote ?w3 verJson ?vd (?v @ ''.json'')")
      obtain r4' w4' where d2': "down remote ?w3' verJson ?vd (?v @ ''.json'') = (r4', w4')"
        by (cases "down remote ?w3' verJson ?vd (?v @ ''.json'')")
      note dr2 = down_rel[OF e3, of remote verJson ?vd "?v @ ''.json''"]
      from dr2 d2 d2' have r4: "r4' = r4" and s4: "same_new a b w4 w4'" by simp_all
      have pp: "path_join ?vd [?v @ ''.json''] = ?p" by (simp add: path_join_append)
      show ?thesis
      proof (cases r4)
        case (Inl err)
        then show ?thesis
          using d1 d1' r2 ok rj ex ex' url d2 d2' r4 s4 by (simp add: downloadVersion_def Let_def)
      next
        case ok4: (Inr y)
        from dr2 d2 d2' ok4 pp have "files w4 ?p = files w4' ?p" by auto
        then show ?thesis
          using d1 d1' r2 ok rj ex ex' url d2 d2' r4 s4 ok4 by (simp add: downloadVersion_def Let_def)
      qed
    qed
  qed
qed

lemma after_step_None: "after_step nov r = None \<longleftrightarrow> r = Resolved"
  by (cases r) (simp_all add: after_step_def)

lemma download_rel:
  assumes "same_new a b w w'" and "cache_ok root w" and "cache_ok root w'"
  shows "fst (download remote w v root) = fst (download remote w' v root)
     \<and> same_new a b (snd (download remote w v root)) (snd (download remote w' v root))"
proof -
  let ?d = "\<lparr>d_root = root, d_version = v, d_file = JUndefined\<rparr>"
  let ?nov = "v = []"
  obtain r1 w1 where s1: "downloadVersion remote w ?d = (r1, w1)"
    by (cases "downloadVersion remote w ?d")
  obtain r1' w1' where s1': "downloadVersion remote w' ?d = (r1', w1')"
    by (cases "downloadVersion remote w' ?d")
  from downloadVersion_rel[of a b w w' ?d remote] assms s1 s1'
  have r1: "r1' = r1" and n1: "same_new a b w1 w1'"
    and f1: "r1 = Resolved \<Longrightarrow>
       files w1 (path_join root [''versions'', v, v @ ''.json''])
       = files w1' (path_join root [''versions'', v, v @ ''.json''])"
    by simp_all
  show ?thesis
  proof (cases "after_step ?nov r1")
    case (Some r)
    then show ?thesis using s1 s1' r1 n1 by (simp add: download_def Let_def)
  next
    case a1: None
    then have "r1 = Resolved" by (simp add: after_step_None)
    note f1 = f1[OF this]
    obtain r2 w2 d2 where s2: "downloadClient remote w1 ?d = (r2, w2, d2)"
      by (cases "downloadClient remote w1 ?d")
    obtain r2' w2' d2' where s2': "downloadClient remote w1' ?d = (r2', w2', d2')"
      by (cases "downloadClient remote w1' ?d")
    from downloadClient_rel[of a b w1 w1' ?d remote] n1 f1 s2 s2'
    have r2: "r2' = r2" and n2: "same_new a b w2 w2'" and dd: "d2' = d2" by simp_all
    show ?thesis
    proof (cases "after_step ?nov r2")
      case (Some r)
      then show ?thesis using s1 s1' r1 a1 s2 s2' r2 n2 by (simp add: download_def Let_def)
    next
      case a2: None
      obtain r3 w3 where s3: "downloadAssets remote w2 d2 = (r3, w3)"
        by (cases "downloadAssets remote w2 d2")
      obtain r3' w3' where s3': "downloadAssets remote w2' d2 = (r3', w3')"
        by (cases "downloadAssets remote w2' d2")
      from downloadAssets_rel[OF n2, of remote d2] s3 s3'
      have r3: "r3' = r3" and n3: "same_new a b w3 w3'" by simp_all
      show ?thesis
      proof (cases "after_step ?nov r3")
        case (Some r)
        then show ?thesis
          using s1 s1' r1 a1 s2 s2' r2 dd a2 s3 s3' r3 n3 by (simp add: download_def Let_def)
      next
        case a3: None
        obtain r4 w4 where s4: "downloadLibraries remote w3 d2 = (r4, w4)"
          by (cases "downloadLibraries remote w3 d2")
        obtain r4' w4' where s4': "downloadLibraries remote w3' d2 = (r4', w4')"
          by (cases "downloadLibraries remote w3' d2")
        from downloadLibraries_rel[OF n3, of remote d2] s4 s4'
        have r4: "r4' = r4" and n4: "same_new a b w4 w4'" by simp_all
        show ?thesis
        proof (cases "after_step ?nov r4")
          case (Some r)
          then show ?thesis
            using s1 s1' r1 a1 s2 s2' r2 dd a2 s3 s3' r3 a3 s4 s4' r4 n4
            by (simp add: download_def Let_def)
        next
          case a4: None
          obtain r5 w5 where s5: "downloadNatives remote w4 d2 = (r5, w5)"
            by (cases "downloadNatives remote w4 d2")
          obtain r5' w5' where s5': "downloadNatives remote w4' d2 = (r5', w5')"
            by (cases "downloadNatives remote w4' d2")
          from downloadNatives_rel[OF n4, of remote d2] s5 s5'
          have r5: "r5' = r5" and n5: "same_new a b w5 w5'" by simp_all
          show ?thesis
            using s1 s1' r1 a1 s2 s2' r2 dd a2 s3 s3' r3 a3 s4 s4' r4 a4 s5 s5' r5 n5
            by (cases "after_step ?nov r5") (simp_all add: download_def Let_def)
        qed
      qed
    qed
  qed
qed

lemma issued_same_new: "issued A w \<longleftrightarrow> same_new A A w w"
  by (simp add: issued_def same_new_def)

lemma client_issued:
  "downloadClient remote w d = (r, w2, d2) \<Longrightarrow> issued A w \<Longrightarrow> issued A w2"
  using downloadClient_rel[of A A w w d remote] by (simp add: issued_same_new)

lemma assets_issued:
  "downloadAssets remote w d = (r, w2) \<Longrightarrow> issued A w \<Longrightarrow> issued A w2"
  using downloadAssets_rel[of A A w w remote d] by (simp add: issued_same_new)

lemma libraries_issued:
  "downloadLibraries remote w d = (r, w2) \<Longrightarrow> issued A w \<Longrightarrow> issued A w2"
  using downloadLibraries_rel[of A A w w remote d] by (simp add: issued_same_new)

lemma natives_issued:
  "downloadNatives remote w d = (r, w2) \<Longrightarrow> issued A w \<Longrightarrow> issued A w2"
  using downloadNatives_rel[of A A w w remote d] by (simp add: issued_same_new)

lemma down_issued:
  "issued A w \<Longrightarrow> issued A (snd (down remote w url dir name))"
  using down_rel[of A A w w remote url dir name] by (simp add: issued_same_new)

lemma issued_ensure: "issued A w \<Longrightarrow> issued A (ensure_dir_recursive w p)"
  by (simp add: issued_def)

lemma version_issued:
  assumes "downloadVersion remote w d = (r, w5)"
  shows "issued (requests w @ [(url_meta,
            path_join (d_root d) [''cache'', ''json'', ''version_manifest.json''])]) w5"
proof -
  let ?cj = "path_join (d_root d) [''cache'', ''json'']"
  let ?vd = "path_join (d_root d) [''versions'', d_version d]"
  let ?m = "path_join (d_root d) [''cache'', ''json'', ''version_manifest.json'']"
  let ?A = "requests w @ [(url_meta, ?m)]"
  let ?w1 = "ensure_dir_recursive w ?cj"
  have pm: "path_join ?cj [''version_manifest.json''] = ?m"
    by (simp add: path_join_append)
  obtain r2 w2 where d1: "down remote ?w1 (JStr url_meta) ?cj ''version_manifest.json'' = (r2, w2)"
    by (cases "down remote ?w1 (JStr url_meta) ?cj ''version_manifest.json''")
  then have i2: "issued ?A w2"
    by (auto simp: issued_def down_def pm writeFileSync_def Let_def split: option.splits)
  show ?thesis
  proof (cases r2)
    case (Inl e)
    then show ?thesis using assms d1 i2 by (simp add: downloadVersion_def Let_def)
  next
    case ok: (Inr x)
    show ?thesis
    proof (cases "existsSync w2 (path_join (d_root d) [''cache''])")
      case False
      then show ?thesis using assms d1 i2 ok by (simp add: downloadVersion_def Let_def)
    next
      case True
      show ?thesis
      proof (cases "bindE (read_json w2 ?m) (\<lambda>ver. resolveVersionUrl ver (d_version d))")
        case (Inl e)
        then show ?thesis using assms d1 i2 ok True by (simp add: downloadVersion_def Let_def)
      next
        case url: (Inr verJson)
        obtain r4 w4 where d2: "down remote (ensure_dir_recursive w2 ?vd) verJson ?vd
            (d_version d @ ''.json'') = (r4, w4)"
          by (cases "down remote (ensure_dir_recursive w2 ?vd) verJson ?vd (d_version d @ ''.json'')")
        from down_issued[OF issued_ensure[OF i2], of remote ?vd verJson ?vd "d_version d @ ''.json''"] d2
        have i4: "issued ?A w4" by simp
        show ?thesis
          using assms d1 ok True url d2 i4
          by (cases r4) (simp_all add: downloadVersion_def Let_def)
      qed
    qed
  qed
qed

lemma download_first_request:
  "issued (requests w @ [(url_meta, path_join root [''cache'', ''json'', ''version_manifest.json''])])
     (snd (download remote w v root))"
proof -
  let ?d = "\<lparr>d_root = root, d_version = v, d_file = JUndefined\<rparr>"
  let ?A = "requests w @ [(url_meta, path_join root [''cache'', ''json'', ''version_manifest.json''])]"
  let ?nov = "v = []"
  obtain r1 w1 where s1: "downloadVersion remote w ?d = (r1, w1)"
    by (cases "downloadVersion remote w ?d")
  from version_issued[OF s1] have i1: "issued ?A w1" by simp
  show ?thesis
  proof (cases "after_step ?nov r1")
    case (Some r)
    then show ?thesis using s1 i1 by (simp add: download_def Let_def)
  next
    case a1: None
    obtain r2 w2 d2 where s2: "downloadClient remote w1 ?d = (r2, w2, d2)"
      by (cases "downloadClient remote w1 ?d")
    note i2 = client_issued[OF s2 i1]
    show ?thesis
    proof (cases "after_step ?nov r2")
      case (Some r)
      then show ?thesis using s1 a1 s2 i2 by (simp add: download_def Let_def)
    next
      case a2: None
      obtain r3 w3 where s3: "downloadAssets remote w2 d2 = (r3, w3)"
        by (cases "downloadAssets remote w2 d2")
      note i3 = assets_issued[OF s3 i2]
      show ?thesis
      proof (cases "after_step ?nov r3")
        case (Some r)
        then show ?thesis using s1 a1 s2 a2 s3 i3 by (simp add: download_def Let_def)
      next
        case a3: None
        obtain r4 w4 where s4: "downloadLibraries remote w3 d2 = (r4, w4)"
          by (cases "downloadLibraries remote w3 d2")
        note i4 = libraries_issued[OF s4 i3]
        show ?thesis
        proof (cases "after_step ?nov r4")
          case (Some r)
          then show ?thesis using s1 a1 s2 a2 s3 a3 s4 i4 by (simp add: download_def Let_def)
        next
          case a4: None
          obtain r5 w5 where s5: "downloadNatives remote w4 d2 = (r5, w5)"
            by (cases "downloadNatives remote w4 d2")
          note i5 = natives_issued[OF s5 i4]
          show ?thesis
            using s1 a1 s2 a2 s3 a3 s4 a4 s5 i5
            by (cases "after_step ?nov r5") (simp_all add: download_def Let_def)
        qed
      qed
    qed
  qed
qed

lemmas download_eval =
  download_def downloadVersion_def Let_def ensure_dir_recursive_def existsSync_def
  mkdir_recursive_def path_join_def norm_step_def down_def url_meta_def writeFileSync_def
  read_json_def readFileSync_def bindE_def resolveVersionUrl_def as_array_def after_step_def
  downloadClient_def ensure_dir_def mkdirSync_def downloadAssets_def for_in_values_def
  asset_step_def hasOwnProperty_call_def url_resource_def downloadLibraries_def
  library_step_def basename_def downloadNatives_def native_step_def native_args_def
  native_rejects_def select_natives_def js_includes_def extractAllTo_def
  unlinkSync_def

lemma first_run:
  "fst (download remote0 empty_world ''1.0'' [''mc'']) = Resolved
   \<and> requests (snd (download remote0 empty_world ''1.0'' [''mc''])) =
      [(''https://launchermeta.mojang.com/mc/game/version_manifest.json'',
          [''mc'', ''cache'', ''json'', ''version_manifest.json'']),
       (''https://m/1.0.json'', [''mc'', ''versions'', ''1.0'', ''1.0.json'']),
       (''https://d/client.jar'', [''mc'', ''versions'', ''1.0'', ''1.0.jar'']),
       (''https://m/index.json'', [''mc'', ''assets'', ''indexes'', ''1.0.json'']),
       (''https://m/index.json'', [''mc'', ''cache'', ''json'', ''1.0.json'']),
       (''https://resources.download.minecraft.net/ab/abcd'',
          [''mc'', ''assets'', ''objects'', ''ab'', ''abcd'']),
       (''https://l/lib-1.jar'', [''mc'', ''libraries'', ''a'', ''lib-1.jar'']),
       (''https://l/lib-1-natives.jar'', [''mc'', ''natives'', ''lib-1-natives-windows.jar''])]"
  by (simp add: download_eval empty_world_def remote0_def manifest0_def meta0_def index0_def)

text \<open>
  Claim C2, as amended. On any two disks on which the cache directory exists whenever
  \<^verbatim>\<open>cache/json\<close> does (a complete version directory is one, an empty disk another),
  \<open>download\<close> ends the same way and issues the same network transfers, the version
  manifest first: what is on the disk never suppresses a transfer. The existence checks
  of the code guard only the creation of directories.
\<close>

theorem download_repeats_transfers:
  assumes "cache_ok root w" and "cache_ok root w'"
  shows "fst (download remote w v root) = fst (download remote w' v root)
     \<and> (\<exists>rest.
           requests (snd (download remote w v root))
             = requests w @ (url_meta,
                 path_join root [''cache'', ''json'', ''version_manifest.json'']) # rest
         \<and> requests (snd (download remote w' v root))
             = requests w' @ (url_meta,
                 path_join root [''cache'', ''json'', ''version_manifest.json'']) # rest)"
proof -
  let ?x = "(url_meta, path_join root [''cache'', ''json'', ''version_manifest.json''])"
  have "same_new (requests w) (requests w') w w'" by (simp add: same_new_def)
  from download_rel[OF this assms, of remote v] obtain new where
    o: "fst (download remote w v root) = fst (download remote w' v root)"
    and n: "requests (snd (download remote w v root)) = requests w @ new"
    and n': "requests (snd (download remote w' v root)) = requests w' @ new"
    by (auto simp: same_new_def)
  from download_first_request[of w root remote v] obtain s where
    "requests (snd (download remote w v root)) = (requests w @ [?x]) @ s"
    by (auto simp: issued_def)
  with n have "new = ?x # s" by simp
  with o n n' show ?thesis by blast
qed

lemma cache_ok_examples: "cache_ok [''mc''] empty_world" "cache_ok [''mc''] complete_world"
  by (simp_all add: cache_ok_def existsSync_def empty_world_def complete_world_def
      path_join_def norm_step_def)

theorem download_repeats_transfers_witness:
  "cache_ok [''mc''] empty_world \<and> cache_ok [''mc''] complete_world
   \<and> fst (download remote0 complete_world ''1.0'' [''mc'']) = Resolved
   \<and> length (requests (snd (download remote0 complete_world ''1.0'' [''mc'']))) = 8"
proof -
  from download_repeats_transfers[OF cache_ok_examples, of remote0 "''1.0''"] obtain rest where
    o: "fst (download remote0 empty_world ''1.0'' [''mc''])
        = fst (download remote0 complete_world ''1.0'' [''mc''])"
    and a: "requests (snd (download remote0 empty_world ''1.0'' [''mc'']))
        = requests empty_world @ (url_meta,
            path_join [''mc''] [''cache'', ''json'', ''version_manifest.json'']) # rest"
    and b: "requests (snd (download remote0 complete_world ''1.0'' [''mc'']))
        = requests complete_world @ (url_meta,
            path_join [''mc''] [''cache'', ''json'', ''version_manifest.json'']) # rest"
    by blast
  from a first_run have "length rest = 7" by (simp add: empty_world_def)
  with b have "length (requests (snd (download remote0 complete_world ''1.0'' [''mc'']))) = 8"
    by (simp add: complete_world_def)
  with o first_run cache_ok_examples show ?thesis by simp
qed

text \<open>
  Claim C2 as stated fails: over the complete version directory (the client jar, the
  asset and the library are all on the disk, and nothing has been requested yet) the
  pipeline requests every file again, eight transfers in all.
\<close>

theorem complete_directory_downloads_again_counterexample:
  "files complete_world [''mc'', ''versions'', ''1.0'', ''1.0.jar''] = Some Bytes
   \<and> files complete_world [''mc'', ''assets'', ''objects'', ''ab'', ''abcd''] = Some Bytes
   \<and> files complete_world [''mc'', ''libraries'', ''a'', ''lib-1.jar''] = Some Bytes
   \<and> requests complete_world = []
   \<and> requests (snd (download remote0 complete_world ''1.0'' [''mc''])) =
      [(''https://launchermeta.mojang.com/mc/game/version_manifest.json'',
          [''mc'', ''cache'', ''json'', ''version_manifest.json'']),
       (''https://m/1.0.json'', [''mc'', ''versions'', ''1.0'', ''1.0.json'']),
       (''https://d/client.jar'', [''mc'', ''versions'', ''1.0'', ''1.0.jar'']),
       (''https://m/index.json'', [''mc'', ''assets'', ''indexes'', ''1.0.json'']),
       (''https://m/index.json'', [''mc'', ''cache'', ''json'', ''1.0.json'']),
       (''https://resources.download.minecraft.net/ab/abcd'',
          [''mc'', ''assets'', ''objects'', ''ab'', ''abcd'']),
       (''https://l/lib-1.jar'', [''mc'', ''libraries'', ''a'', ''lib-1.jar'']),
       (''https://l/lib-1-natives.jar'', [''mc'', ''natives'', ''lib-1-natives-windows.jar''])]"
proof -
  have "same_new [] [] empty_world complete_world"
    by (simp add: same_new_def empty_world_def complete_world_def)
  from download_rel[OF this cache_ok_examples, of remote0 "''1.0''"]
  have "requests (snd (download remote0 complete_world ''1.0'' [''mc'']))
      = requests (snd (download remote0 empty_world ''1.0'' [''mc'']))"
    by (simp add: same_new_def)
  with first_run show ?thesis by (simp add: complete_world_def)
qed

end
